theory Spec2Isabelle
  imports Main "HOL-Library.Sublist"
begin

section \<open>pymachinetalk.dns\_sd: DNS-SD service tracking\<close>

text \<open>
  A shallow embedding of \<^verbatim>\<open>pymachinetalk/dns_sd.py\<close>. Python objects that are shared by
  reference (Service, ServiceContainer) live in a store indexed by object identity; a
  method takes the identity of \<^verbatim>\<open>self\<close> and the store and returns the new store.
  A call either returns or raises; in both cases the store reached is kept.
\<close>

subsection \<open>Values, errors, outcomes\<close>

text \<open>
  \<^verbatim>\<open>bytes\<close> is a list of 8-bit characters. \<^verbatim>\<open>str\<close> (text) is kept in its UTF-8
  encoding, so \<^verbatim>\<open>bytes.decode()\<close> returns its argument when it is well-formed UTF-8
  and raises \<^verbatim>\<open>UnicodeDecodeError\<close> otherwise.
\<close>

type_synonym bytes = string
type_synonym str = string

datatype error = TypeError | KeyError | RuntimeError | ValueError | UnicodeDecodeError

datatype 'a outcome = Returned 'a | Raised error 'a

fun state_of :: "'a outcome \<Rightarrow> 'a" where
  "state_of (Returned s) = s"
| "state_of (Raised e s) = s"

text \<open>The value of \<^verbatim>\<open>Service.version\<close>: the integer \<^verbatim>\<open>0\<close> or a byte string.\<close>

datatype pyval = PyInt int | PyBytes bytes

definition cont :: "nat \<Rightarrow> bool" where
  "cont b \<longleftrightarrow> 128 \<le> b \<and> b \<le> 191"

text \<open>Well-formed UTF-8 byte sequences, as the strict decoder of Python 3 accepts them.\<close>

fun utf8_ok :: "nat list \<Rightarrow> bool" where
  "utf8_ok [] = True"
| "utf8_ok (b # bs) =
     (if b < 128 then utf8_ok bs
      else if 194 \<le> b \<and> b \<le> 223 then
        (case bs of c1 # r \<Rightarrow> cont c1 \<and> utf8_ok r | _ \<Rightarrow> False)
      else if 224 \<le> b \<and> b \<le> 239 then
        (case bs of c1 # c2 # r \<Rightarrow>
           (if b = 224 then 160 \<le> c1 \<and> c1 \<le> 191
            else if b = 237 then 128 \<le> c1 \<and> c1 \<le> 159
            else cont c1) \<and> cont c2 \<and> utf8_ok r
         | _ \<Rightarrow> False)
      else if 240 \<le> b \<and> b \<le> 244 then
        (case bs of c1 # c2 # c3 # r \<Rightarrow>
           (if b = 240 then 144 \<le> c1 \<and> c1 \<le> 191
            else if b = 244 then 128 \<le> c1 \<and> c1 \<le> 143
            else cont c1) \<and> cont c2 \<and> cont c3 \<and> utf8_ok r
         | _ \<Rightarrow> False)
      else False)"

definition decode :: "bytes \<Rightarrow> str option" where
  "decode bs = (if utf8_ok (map of_char bs) then Some bs else None)"

text \<open>\<^verbatim>\<open>d.get(key, default)\<close> on a dict.\<close>

definition dict_get :: "('k \<rightharpoonup> 'v) \<Rightarrow> 'k \<Rightarrow> 'v \<Rightarrow> 'v" where
  "dict_get d k dflt = (case d k of None \<Rightarrow> dflt | Some v \<Rightarrow> v)"

subsection \<open>Objects\<close>

text \<open>\<^verbatim>\<open>zeroconf.ServiceInfo\<close>: the resolved record, with its TXT properties.\<close>

record service_info =
  si_type :: str
  si_name :: str
  si_properties :: "bytes \<rightharpoonup> bytes"

text \<open>
  An entry of \<^verbatim>\<open>Service.on_ready_changed\<close>: the bound method
  \<^verbatim>\<open>_update_services_ready\<close> of the container with the given identity, or a callable of
  the client, known by a number. A client callable is opaque: its call is logged, and it
  is taken to return without touching the objects modelled here.
\<close>

datatype callback = UpdateServicesReady nat | External nat

record service =
  svc_type :: str
  svc_domain :: str
  base_type :: str
  protocol :: str
  name :: str
  uri :: str
  uuid :: str
  version :: pyval
  ready :: bool
  service_infos :: "service_info list"
  on_ready_changed :: "callback list"

definition Service_init :: "str \<Rightarrow> service" where
  "Service_init t =
     \<lparr>svc_type = t, svc_domain = ''local'', base_type = ''machinekit'', protocol = ''tcp'',
      name = '''', uri = '''', uuid = '''', version = PyInt 0, ready = False,
      service_infos = [], on_ready_changed = []\<rparr>"

text \<open>
  \<^verbatim>\<open>ServiceContainer\<close>: \<open>ctr_services\<close> holds the identities of the contained Services,
  \<open>on_services_ready_changed\<close> the client callables subscribed to the aggregate flag.
\<close>

record service_container =
  ctr_services :: "nat list"
  services_ready :: bool
  on_services_ready_changed :: "nat list"

definition ServiceContainer_init :: service_container where
  "ServiceContainer_init =
     \<lparr>ctr_services = [], services_ready = False, on_services_ready_changed = []\<rparr>"

text \<open>A callback invocation, as logged: who called which callable with which value.\<close>

datatype event =
    ReadyChanged nat callback bool
  | ServicesReadyChanged nat nat bool

text \<open>
  The store. \<open>svcs\<close> and \<open>ctrs\<close> map an object identity to the object's state (a
  reference in Python is always valid, so the maps are total); \<open>calls\<close> is the log of
  callback invocations; \<open>zc_count\<close> counts the \<^verbatim>\<open>Zeroconf\<close> sessions constructed and
  \<open>zc_closed\<close> lists the sessions on which \<^verbatim>\<open>close()\<close> was called.
\<close>

record world =
  svcs :: "nat \<Rightarrow> service"
  ctrs :: "nat \<Rightarrow> service_container"
  calls :: "event list"
  zc_count :: nat
  zc_closed :: "nat list"

subsection \<open>ServiceContainer: the aggregate flag\<close>

text \<open>The setter of \<^verbatim>\<open>ServiceContainer.services_ready\<close>.\<close>

definition set_services_ready :: "nat \<Rightarrow> bool \<Rightarrow> world \<Rightarrow> world" where
  "set_services_ready c v w =
     (if v \<noteq> services_ready (ctrs w c) then
        w\<lparr>ctrs := (ctrs w)(c := (ctrs w c)\<lparr>services_ready := v\<rparr>),
          calls := calls w @ map (\<lambda>k. ServicesReadyChanged c k v)
                     (on_services_ready_changed (ctrs w c))\<rparr>
      else w)"

text \<open>\<^verbatim>\<open>ServiceContainer._update_services_ready\<close>; its argument is ignored.\<close>

definition update_services_ready :: "nat \<Rightarrow> bool \<Rightarrow> world \<Rightarrow> world" where
  "update_services_ready c x w =
     set_services_ready c (list_all (\<lambda>i. ready (svcs w i)) (ctr_services (ctrs w c))) w"

subsection \<open>Service\<close>

text \<open>One iteration of \<^verbatim>\<open>for cb in self.on_ready_changed: cb(value)\<close>.\<close>

fun call_ready_cb :: "nat \<Rightarrow> bool \<Rightarrow> world \<Rightarrow> callback \<Rightarrow> world" where
  "call_ready_cb sid v w (External k) =
     w\<lparr>calls := calls w @ [ReadyChanged sid (External k) v]\<rparr>"
| "call_ready_cb sid v w (UpdateServicesReady c) =
     update_services_ready c v (w\<lparr>calls := calls w @ [ReadyChanged sid (UpdateServicesReady c) v]\<rparr>)"

text \<open>The setter of \<^verbatim>\<open>Service.ready\<close>.\<close>

definition set_ready :: "nat \<Rightarrow> bool \<Rightarrow> world \<Rightarrow> world" where
  "set_ready sid v w =
     (if v \<noteq> ready (svcs w sid) then
        foldl (call_ready_cb sid v)
          (w\<lparr>svcs := (svcs w)(sid := (svcs w sid)\<lparr>ready := v\<rparr>)\<rparr>)
          (on_ready_changed (svcs w sid))
      else w)"

definition typestring :: "service \<Rightarrow> str" where
  "typestring s = ''_'' @ base_type s @ ''._'' @ protocol s @ ''.'' @ svc_domain s @ ''.''"

text \<open>
  \<^verbatim>\<open>Service.matches_service_info\<close>. The decoding comes first and may raise; the test
  \<^verbatim>\<open>a in b\<close> on text is \<open>sublist a b\<close>.
\<close>

definition matches_service_info :: "service \<Rightarrow> service_info \<Rightarrow> error + bool" where
  "matches_service_info s info =
     (case decode (dict_get (si_properties info) ''service'' '''') of
        None \<Rightarrow> Inl UnicodeDecodeError
      | Some t \<Rightarrow> Inr (svc_type s = t \<and> sublist (typestring s) (si_type info)))"

text \<open>\<^verbatim>\<open>Service._set_all_values_from_service_info\<close>: four assignments, two of which decode.\<close>

definition set_all_values_from_service_info :: "service_info \<Rightarrow> service \<Rightarrow> service outcome" where
  "set_all_values_from_service_info info s =
     (let s1 = s\<lparr>name := si_name info\<rparr> in
      case decode (dict_get (si_properties info) ''dsn'' '''') of
        None \<Rightarrow> Raised UnicodeDecodeError s1
      | Some u \<Rightarrow>
          (let s2 = s1\<lparr>uri := u\<rparr> in
           case decode (dict_get (si_properties info) ''uuid'' '''') of
             None \<Rightarrow> Raised UnicodeDecodeError s2
           | Some i \<Rightarrow>
               Returned (s2\<lparr>uuid := i,
                            version := PyBytes (dict_get (si_properties info) ''version'' '''')\<rparr>)))"

definition init_all_values :: "service \<Rightarrow> service" where
  "init_all_values s = s\<lparr>name := '''', uri := '''', uuid := '''', version := PyInt 0\<rparr>"

definition put_service :: "nat \<Rightarrow> service \<Rightarrow> world \<Rightarrow> world" where
  "put_service sid s w = w\<lparr>svcs := (svcs w)(sid := s)\<rparr>"

text \<open>\<^verbatim>\<open>Service._update\<close>.\<close>

definition update :: "nat \<Rightarrow> world \<Rightarrow> world outcome" where
  "update sid w =
     (case service_infos (svcs w sid) of
        info # rest \<Rightarrow>
          (case set_all_values_from_service_info info (svcs w sid) of
             Raised e s' \<Rightarrow> Raised e (put_service sid s' w)
           | Returned s' \<Rightarrow> Returned (set_ready sid True (put_service sid s' w)))
      | [] \<Rightarrow>
          (let w1 = set_ready sid False w
           in Returned (put_service sid (init_all_values (svcs w1 sid)) w1)))"

definition add_service_info :: "nat \<Rightarrow> service_info \<Rightarrow> world \<Rightarrow> world outcome" where
  "add_service_info sid info w =
     update sid (put_service sid
       ((svcs w sid)\<lparr>service_infos := service_infos (svcs w sid) @ [info]\<rparr>) w)"

text \<open>
  \<^verbatim>\<open>Service.remove_service_info\<close>. The loop variable has the parameter's name, so the
  parameter is never read: the loop looks for the first stored record that
  \<^verbatim>\<open>Service.__eq__\<close> accepts, that is whose name is the Service's own \<open>name\<close>, and
  \<^verbatim>\<open>list.remove\<close> takes out the first element equal to it.
\<close>

definition remove_service_info :: "nat \<Rightarrow> service_info \<Rightarrow> world \<Rightarrow> world outcome" where
  "remove_service_info sid info w =
     (let s = svcs w sid in
      update sid
        (case find (\<lambda>i. name s = si_name i) (service_infos s) of
           Some i \<Rightarrow> put_service sid (s\<lparr>service_infos := remove1 i (service_infos s)\<rparr>) w
         | None \<Rightarrow> w))"

definition clear_service_infos :: "nat \<Rightarrow> world \<Rightarrow> world outcome" where
  "clear_service_infos sid w =
     update sid (put_service sid ((svcs w sid)\<lparr>service_infos := []\<rparr>) w)"

subsection \<open>Arguments of any class\<close>

text \<open>
  What a caller may pass where the code tests \<^verbatim>\<open>isinstance\<close>: a resolved record, a
  Service, a ServiceContainer (both by identity), or an object of another class.
\<close>

datatype pyobj = ServiceInfoObj service_info | ServiceObj nat | ServiceContainerObj nat | OtherObj

subsection \<open>ServiceDiscoveryFilter\<close>

text \<open>\<open>txt_records\<close> lists the dict's items in the order \<^verbatim>\<open>six.iteritems\<close> yields them.\<close>

record service_discovery_filter =
  flt_name :: str
  txt_records :: "(bytes \<times> bytes) list"

definition ServiceDiscoveryFilter_init :: service_discovery_filter where
  "ServiceDiscoveryFilter_init = \<lparr>flt_name = '''', txt_records = []\<rparr>"

text \<open>
  The loop over the TXT items: \<^verbatim>\<open>info.properties[name]\<close> raises \<^verbatim>\<open>KeyError\<close> on a
  missing key, a different value ends the loop with \<^verbatim>\<open>match = False\<close>.
\<close>

fun txt_loop :: "(bytes \<times> bytes) list \<Rightarrow> service_info \<Rightarrow> bool \<Rightarrow> error + bool" where
  "txt_loop [] info match = Inr match"
| "txt_loop ((k, v) # rest) info match =
     (case si_properties info k of
        None \<Rightarrow> Inl KeyError
      | Some x \<Rightarrow> if x \<noteq> v then Inr False else txt_loop rest info match)"

text \<open>\<^verbatim>\<open>ServiceDiscoveryFilter.matches_service_info\<close>.\<close>

definition filter_matches_service_info :: "service_discovery_filter \<Rightarrow> pyobj \<Rightarrow> error + bool" where
  "filter_matches_service_info f obj =
     (case obj of
        ServiceInfoObj info \<Rightarrow> txt_loop (txt_records f) info (sublist (flt_name f) (si_name info))
      | _ \<Rightarrow> Inl TypeError)"

subsection \<open>ServiceContainer: membership\<close>

definition put_container :: "nat \<Rightarrow> service_container \<Rightarrow> world \<Rightarrow> world" where
  "put_container c x w = w\<lparr>ctrs := (ctrs w)(c := x)\<rparr>"

text \<open>\<^verbatim>\<open>ServiceContainer.add_service\<close>.\<close>

definition container_add_service :: "nat \<Rightarrow> pyobj \<Rightarrow> world \<Rightarrow> world outcome" where
  "container_add_service c obj w =
     (case obj of
        ServiceObj sid \<Rightarrow>
          (let w1 = put_container c ((ctrs w c)\<lparr>ctr_services := ctr_services (ctrs w c) @ [sid]\<rparr>) w
           in Returned (put_service sid
                ((svcs w1 sid)\<lparr>on_ready_changed :=
                    on_ready_changed (svcs w1 sid) @ [UpdateServicesReady c]\<rparr>) w1))
      | _ \<Rightarrow> Raised TypeError w)"

text \<open>
  \<^verbatim>\<open>ServiceContainer.remove_service\<close>. \<^verbatim>\<open>list.remove\<close> raises \<^verbatim>\<open>ValueError\<close> when
  nothing is found; \<^verbatim>\<open>Service.__eq__\<close> is false on another Service, so a Service is found
  by identity.
\<close>

definition container_remove_service :: "nat \<Rightarrow> pyobj \<Rightarrow> world \<Rightarrow> world outcome" where
  "container_remove_service c obj w =
     (case obj of
        ServiceObj sid \<Rightarrow>
          (if sid \<notin> set (ctr_services (ctrs w c)) then Raised ValueError w
           else
             (let w1 = put_container c
                         ((ctrs w c)\<lparr>ctr_services := remove1 sid (ctr_services (ctrs w c))\<rparr>) w
              in if UpdateServicesReady c \<notin> set (on_ready_changed (svcs w1 sid))
                 then Raised ValueError w1
                 else Returned (put_service sid
                        ((svcs w1 sid)\<lparr>on_ready_changed :=
                            remove1 (UpdateServicesReady c) (on_ready_changed (svcs w1 sid))\<rparr>) w1)))
      | _ \<Rightarrow> Raised TypeError w)"

subsection \<open>ServiceDiscovery\<close>

text \<open>
  The objects of the zeroconf library: a session \<^verbatim>\<open>Zeroconf(unicast=...)\<close>, known by the
  order of its construction, and a browser
  \<^verbatim>\<open>ServiceBrowser(zeroconf, type, listener, addr=..., delay=...)\<close>. Constructing them is
  taken to succeed.
\<close>

datatype zeroconf = Zeroconf (zc_id: nat) (zc_unicast: bool)

datatype service_browser =
  ServiceBrowser (br_zeroconf: zeroconf) (br_type: str) (br_addr: "str option") (br_delay: int)

record service_discovery =
  service_type :: str
  sd_filter :: service_discovery_filter
  nameservers :: "str list"
  lookup_interval :: int
  is_ready :: bool
  sd_services :: "nat list"
  browsers :: "service_browser list option"
  zeroconfs :: "zeroconf list option"

definition LOOKUP_INTERVAL :: int where
  "LOOKUP_INTERVAL = 500"

definition ServiceDiscovery_init ::
  "str \<Rightarrow> service_discovery_filter \<Rightarrow> str list \<Rightarrow> int \<Rightarrow> service_discovery" where
  "ServiceDiscovery_init st f ns li =
     \<lparr>service_type = st, sd_filter = f, nameservers = ns, lookup_interval = li,
      is_ready = False, sd_services = [], browsers = None, zeroconfs = None\<rparr>"

type_synonym sessions = "zeroconf list \<times> service_browser list"

text \<open>
  \<^verbatim>\<open>_start_multicast_discovery\<close> and \<^verbatim>\<open>_start_unicast_discovery\<close>, on the two lists that
  \<^verbatim>\<open>_start_discovery\<close> has just created.
\<close>

definition start_multicast_discovery ::
  "service_discovery \<Rightarrow> sessions \<Rightarrow> world \<Rightarrow> sessions \<times> world" where
  "start_multicast_discovery d zb w =
     (let type_string = ''_'' @ service_type d @ ''._tcp.local.'';
          zc = Zeroconf (zc_count w) False
      in ((fst zb @ [zc],
           snd zb @ [ServiceBrowser zc type_string None (lookup_interval d)]),
          w\<lparr>zc_count := Suc (zc_count w)\<rparr>))"

fun start_unicast_discovery ::
  "service_discovery \<Rightarrow> nat list \<Rightarrow> sessions \<Rightarrow> world \<Rightarrow> sessions \<times> world" where
  "start_unicast_discovery d [] zb w = (zb, w)"
| "start_unicast_discovery d (sid # rest) zb w =
     (let type_string = ''_'' @ svc_type (svcs w sid) @ ''._sub._'' @ service_type d @ ''._tcp.local.'';
          zc = Zeroconf (zc_count w) True
      in start_unicast_discovery d rest
           (fst zb @ [zc],
            snd zb @ map (\<lambda>ns. ServiceBrowser zc type_string (Some ns) (lookup_interval d))
                       (nameservers d))
           (w\<lparr>zc_count := Suc (zc_count w)\<rparr>))"

text \<open>\<^verbatim>\<open>any(self.nameservers)\<close>: some address is a non-empty string.\<close>

definition any_nameserver :: "str list \<Rightarrow> bool" where
  "any_nameserver ns = list_ex (\<lambda>n. n \<noteq> '''') ns"

definition start_discovery :: "service_discovery \<Rightarrow> world \<Rightarrow> service_discovery \<times> world" where
  "start_discovery d w =
     (let (zb, w') =
            (if any_nameserver (nameservers d)
             then start_unicast_discovery d (sd_services d) ([], []) w
             else start_multicast_discovery d ([], []) w)
      in (d\<lparr>browsers := Some (snd zb), zeroconfs := Some (fst zb)\<rparr>, w'))"

text \<open>\<^verbatim>\<open>for service in self.services: service.clear_service_infos()\<close>.\<close>

fun clear_all :: "nat list \<Rightarrow> world \<Rightarrow> world outcome" where
  "clear_all [] w = Returned w"
| "clear_all (sid # rest) w =
     (case clear_service_infos sid w of
        Raised e w' \<Rightarrow> Raised e w'
      | Returned w' \<Rightarrow> clear_all rest w')"

text \<open>
  \<^verbatim>\<open>_stop_discovery\<close>. Iterating over \<^verbatim>\<open>None\<close>, or deleting a slice of it, raises
  \<^verbatim>\<open>TypeError\<close>.
\<close>

definition stop_discovery ::
  "service_discovery \<Rightarrow> world \<Rightarrow> (service_discovery \<times> world) outcome" where
  "stop_discovery d w =
     (case zeroconfs d of
        None \<Rightarrow> Raised TypeError (d, w)
      | Some zs \<Rightarrow>
          (let w1 = w\<lparr>zc_closed := zc_closed w @ map zc_id zs\<rparr>;
               d1 = d\<lparr>zeroconfs := Some []\<rparr>
           in case browsers d1 of
                None \<Rightarrow> Raised TypeError (d1, w1)
              | Some bs \<Rightarrow>
                  (let d2 = d1\<lparr>browsers := Some []\<rparr>
                   in case clear_all (sd_services d2) w1 of
                        Raised e w2 \<Rightarrow> Raised e (d2, w2)
                      | Returned w2 \<Rightarrow> Returned (d2, w2))))"

text \<open>\<^verbatim>\<open>not self._browsers\<close>: the attribute is \<^verbatim>\<open>None\<close> or an empty list.\<close>

definition no_browsers :: "service_discovery \<Rightarrow> bool" where
  "no_browsers d = (case browsers d of None \<Rightarrow> True | Some bs \<Rightarrow> bs = [])"

definition start :: "service_discovery \<Rightarrow> world \<Rightarrow> (service_discovery \<times> world) outcome" where
  "start d w =
     (if no_browsers d then Returned (start_discovery (d\<lparr>is_ready := True\<rparr>) w)
      else Returned (d, w))"

definition stop :: "service_discovery \<Rightarrow> world \<Rightarrow> (service_discovery \<times> world) outcome" where
  "stop d w =
     (if \<not> no_browsers d then stop_discovery (d\<lparr>is_ready := False\<rparr>) w
      else Returned (d, w))"

text \<open>
  The loop of the two event handlers, over the registered Services. \<open>cmd\<close> is
  \<^verbatim>\<open>service.add_service_info\<close> or \<^verbatim>\<open>service.remove_service_info\<close>; the filter is asked
  again for each Service, and \<^verbatim>\<open>and\<close> does not ask the Service once the filter said no.
\<close>

fun dispatch ::
  "(nat \<Rightarrow> service_info \<Rightarrow> world \<Rightarrow> world outcome) \<Rightarrow> service_discovery_filter \<Rightarrow>
   service_info \<Rightarrow> nat list \<Rightarrow> world \<Rightarrow> world outcome" where
  "dispatch cmd f info [] w = Returned w"
| "dispatch cmd f info (sid # rest) w =
     (case filter_matches_service_info f (ServiceInfoObj info) of
        Inl e \<Rightarrow> Raised e w
      | Inr fm \<Rightarrow>
          (if \<not> fm then dispatch cmd f info rest w
           else
             (case matches_service_info (svcs w sid) info of
                Inl e \<Rightarrow> Raised e w
              | Inr sm \<Rightarrow>
                  (if sm then
                     (case cmd sid info w of
                        Raised e w' \<Rightarrow> Raised e w'
                      | Returned w' \<Rightarrow> dispatch cmd f info rest w')
                   else dispatch cmd f info rest w))))"

text \<open>
  \<^verbatim>\<open>ServiceDiscovery.add_service\<close> and \<^verbatim>\<open>remove_service\<close>, the handlers of the browser's
  events. The argument is what \<^verbatim>\<open>zeroconf.get_service_info(type_, name)\<close> returned:
  a record or \<^verbatim>\<open>None\<close>.
\<close>

definition add_service :: "service_discovery \<Rightarrow> service_info option \<Rightarrow> world \<Rightarrow> world outcome" where
  "add_service d resolved w =
     (case resolved of
        None \<Rightarrow> Returned w
      | Some info \<Rightarrow> dispatch add_service_info (sd_filter d) info (sd_services d) w)"

definition remove_service :: "service_discovery \<Rightarrow> service_info option \<Rightarrow> world \<Rightarrow> world outcome" where
  "remove_service d resolved w =
     (case resolved of
        None \<Rightarrow> Returned w
      | Some info \<Rightarrow> dispatch remove_service_info (sd_filter d) info (sd_services d) w)"

text \<open>
  \<^verbatim>\<open>self.services.append\<close> and \<^verbatim>\<open>self.services.remove\<close>, the two commands that
  \<^verbatim>\<open>_verify_item_and_run\<close> is given.
\<close>

definition services_append :: "nat \<Rightarrow> nat list \<Rightarrow> error + nat list" where
  "services_append sid reg = Inr (reg @ [sid])"

definition services_remove :: "nat \<Rightarrow> nat list \<Rightarrow> error + nat list" where
  "services_remove sid reg = (if sid \<in> set reg then Inr (remove1 sid reg) else Inl ValueError)"

fun run_cmd :: "(nat \<Rightarrow> nat list \<Rightarrow> error + nat list) \<Rightarrow> nat list \<Rightarrow> nat list \<Rightarrow> nat list outcome" where
  "run_cmd cmd [] reg = Returned reg"
| "run_cmd cmd (sid # rest) reg =
     (case cmd sid reg of
        Inl e \<Rightarrow> Raised e reg
      | Inr reg' \<Rightarrow> run_cmd cmd rest reg')"

definition verify_item_and_run ::
  "world \<Rightarrow> pyobj \<Rightarrow> (nat \<Rightarrow> nat list \<Rightarrow> error + nat list) \<Rightarrow> nat list \<Rightarrow> nat list outcome" where
  "verify_item_and_run w item cmd reg =
     (case item of
        ServiceContainerObj c \<Rightarrow> run_cmd cmd (ctr_services (ctrs w c)) reg
      | ServiceObj sid \<Rightarrow> run_cmd cmd [sid] reg
      | _ \<Rightarrow> Raised TypeError reg)"

definition with_services ::
  "service_discovery \<Rightarrow> world \<Rightarrow> nat list outcome \<Rightarrow> (service_discovery \<times> world) outcome" where
  "with_services d w r =
     (case r of
        Returned reg \<Rightarrow> Returned (d\<lparr>sd_services := reg\<rparr>, w)
      | Raised e reg \<Rightarrow> Raised e (d\<lparr>sd_services := reg\<rparr>, w))"

definition register :: "service_discovery \<Rightarrow> world \<Rightarrow> pyobj \<Rightarrow> (service_discovery \<times> world) outcome" where
  "register d w item =
     (if is_ready d then Raised RuntimeError (d, w)
      else with_services d w (verify_item_and_run w item services_append (sd_services d)))"

definition unregister :: "service_discovery \<Rightarrow> world \<Rightarrow> pyobj \<Rightarrow> (service_discovery \<times> world) outcome" where
  "unregister d w item =
     (if is_ready d then Raised RuntimeError (d, w)
      else with_services d w (verify_item_and_run w item services_remove (sd_services d)))"

subsection \<open>Histories of a ServiceDiscovery\<close>

text \<open>
  What happens to a ServiceDiscovery between its construction and a given moment: calls
  of its four public methods and deliveries of the browser's two events. A call that
  raises leaves the objects as they were at the raise, and the history goes on from there.
\<close>

datatype action =
    Register pyobj
  | Unregister pyobj
  | Start
  | Stop
  | RecordAdded "service_info option"
  | RecordRemoved "service_info option"

definition with_discovery ::
  "service_discovery \<Rightarrow> world outcome \<Rightarrow> (service_discovery \<times> world) outcome" where
  "with_discovery d r =
     (case r of Returned w \<Rightarrow> Returned (d, w) | Raised e w \<Rightarrow> Raised e (d, w))"

fun perform :: "action \<Rightarrow> service_discovery \<times> world \<Rightarrow> (service_discovery \<times> world) outcome" where
  "perform (Register item) (d, w) = register d w item"
| "perform (Unregister item) (d, w) = unregister d w item"
| "perform Start (d, w) = start d w"
| "perform Stop (d, w) = stop d w"
| "perform (RecordAdded r) (d, w) = with_discovery d (add_service d r w)"
| "perform (RecordRemoved r) (d, w) = with_discovery d (remove_service d r w)"

fun run :: "action list \<Rightarrow> service_discovery \<times> world \<Rightarrow> service_discovery \<times> world" where
  "run [] s = s"
| "run (a # as) s = run as (state_of (perform a s))"

section \<open>The properties\<close>

fun returned :: "'a outcome \<Rightarrow> bool" where
  "returned (Returned s) = True"
| "returned (Raised e s) = False"

text \<open>The resolved fields of a Service are those of the record \<open>info\<close>.\<close>

definition mirrors :: "service_info \<Rightarrow> service \<Rightarrow> bool" where
  "mirrors info s \<longleftrightarrow>
     name s = si_name info \<and>
     decode (dict_get (si_properties info) ''dsn'' '''') = Some (uri s) \<and>
     decode (dict_get (si_properties info) ''uuid'' '''') = Some (uuid s) \<and>
     version s = PyBytes (dict_get (si_properties info) ''version'' '''')"

text \<open>
  The invariant of a Service: not ready and reset when it holds no record, ready and
  resolved from the first record otherwise.
\<close>

definition service_consistent :: "service \<Rightarrow> bool" where
  "service_consistent s =
     (case service_infos s of
        [] \<Rightarrow> \<not> ready s \<and> name s = '''' \<and> uri s = '''' \<and> uuid s = '''' \<and> version s = PyInt 0
      | info # rest \<Rightarrow> ready s \<and> mirrors info s)"

text \<open>The state \<^verbatim>\<open>clear_service_infos\<close> leaves a Service in.\<close>

definition cleared :: "service \<Rightarrow> service" where
  "cleared s = s\<lparr>name := '''', uri := '''', uuid := '''', version := PyInt 0, ready := False,
                 service_infos := []\<rparr>"

text \<open>The aggregate flag of container \<open>c\<close> is the conjunction of its members' flags.\<close>

definition container_consistent :: "world \<Rightarrow> nat \<Rightarrow> bool" where
  "container_consistent w c \<longleftrightarrow>
     services_ready (ctrs w c) = list_all (\<lambda>i. ready (svcs w i)) (ctr_services (ctrs w c))"

text \<open>The entries of the log written by the setter of \<^verbatim>\<open>Service.ready\<close>.\<close>

fun is_ready_event :: "event \<Rightarrow> bool" where
  "is_ready_event (ReadyChanged sid cb v) = True"
| "is_ready_event (ServicesReadyChanged c k v) = False"

definition ready_events :: "event list \<Rightarrow> event list" where
  "ready_events es = filter is_ready_event es"

text \<open>Both the filter of the discovery and the Service itself say yes to the record.\<close>

definition accepts :: "service_discovery \<Rightarrow> service \<Rightarrow> service_info \<Rightarrow> bool" where
  "accepts d s info \<longleftrightarrow>
     filter_matches_service_info (sd_filter d) (ServiceInfoObj info) = Inr True \<and>
     matches_service_info s info = Inr True"

text \<open>
  What the methods of a ServiceDiscovery keep true of it: while a browser is open the
  discovery is flagged ready, the list of sessions exists when the list of browsers does,
  and every browser runs on a session of that list.
\<close>

definition lifecycle_ok :: "service_discovery \<Rightarrow> bool" where
  "lifecycle_ok d \<longleftrightarrow>
     (\<not> no_browsers d \<longrightarrow> is_ready d) \<and>
     (case browsers d of
        None \<Rightarrow> True
      | Some bs \<Rightarrow>
          (case zeroconfs d of
             None \<Rightarrow> False
           | Some zs \<Rightarrow> list_all (\<lambda>b. br_zeroconf b \<in> set zs) bs))"

text \<open>Two Services are of the same kind: what \<^verbatim>\<open>matches_service_info\<close> reads is equal.\<close>

definition same_kind :: "service \<Rightarrow> service \<Rightarrow> bool" where
  "same_kind s t \<longleftrightarrow>
     svc_type s = svc_type t \<and> base_type s = base_type t \<and> protocol s = protocol t \<and>
     svc_domain s = svc_domain t"

text \<open>The state a unicast discovery without Services is in once it was started.\<close>

definition started_idle :: "service_discovery \<Rightarrow> service_discovery" where
  "started_idle d = d\<lparr>is_ready := True, browsers := Some [], zeroconfs := Some []\<rparr>"

text \<open>Both values of a record that \<^verbatim>\<open>_set_all_values_from_service_info\<close> decodes are UTF-8.\<close>

definition decodable :: "service_info \<Rightarrow> bool" where
  "decodable info \<longleftrightarrow>
     decode (dict_get (si_properties info) ''dsn'' '''') \<noteq> None \<and>
     decode (dict_get (si_properties info) ''uuid'' '''') \<noteq> None"

text \<open>
  The types of the resolved fields: \<open>version\<close> is a byte string while the Service is
  ready, and \<open>uri\<close> and \<open>uuid\<close> are text, the result of a decoding or the empty string.
\<close>

fun is_bytes :: "pyval \<Rightarrow> bool" where
  "is_bytes (PyBytes b) = True"
| "is_bytes (PyInt n) = False"

definition is_text :: "str \<Rightarrow> bool" where
  "is_text t \<longleftrightarrow> decode t = Some t"

definition well_typed :: "service \<Rightarrow> bool" where
  "well_typed s \<longleftrightarrow> (ready s \<longrightarrow> is_bytes (version s)) \<and> is_text (uri s) \<and> is_text (uuid s)"

text \<open>
  The three mutating methods of a Service, and a sequence of calls of them on one Service;
  after a call that raised, the Service is as the raise left it.
\<close>

datatype service_call = AddRecord service_info | RemoveRecord service_info | ClearRecords

fun call_service :: "nat \<Rightarrow> service_call \<Rightarrow> world \<Rightarrow> world outcome" where
  "call_service sid (AddRecord info) w = add_service_info sid info w"
| "call_service sid (RemoveRecord info) w = remove_service_info sid info w"
| "call_service sid ClearRecords w = clear_service_infos sid w"

fun calls_on :: "nat \<Rightarrow> service_call list \<Rightarrow> world \<Rightarrow> world" where
  "calls_on sid [] w = w"
| "calls_on sid (c # cs) w = calls_on sid cs (state_of (call_service sid c w))"

subsection \<open>Example objects\<close>

definition fresh_world :: world where
  "fresh_world =
     \<lparr>svcs = (\<lambda>i. Service_init ''launcher''), ctrs = (\<lambda>c. ServiceContainer_init),
      calls = [], zc_count = 0, zc_closed = []\<rparr>"

definition info_a :: service_info where
  "info_a = \<lparr>si_type = ''_machinekit._tcp.local.'', si_name = ''host-a'',
             si_properties = [''service'' \<mapsto> ''launcher'', ''dsn'' \<mapsto> ''tcp://10.0.0.5:5000'',
                              ''uuid'' \<mapsto> ''abc-123'']\<rparr>"

definition info_b :: service_info where
  "info_b = \<lparr>si_type = ''_machinekit._tcp.local.'', si_name = ''host-b'',
             si_properties = [''service'' \<mapsto> ''launcher'', ''dsn'' \<mapsto> ''tcp://10.0.0.6:5000'',
                              ''uuid'' \<mapsto> ''def-456'', ''version'' \<mapsto> ''2'']\<rparr>"

text \<open>
  Service 0 sits in container 0, whose update method is subscribed to it before a
  callable of the client; the container has one subscriber of its own.
\<close>

definition watched_world :: world where
  "watched_world =
     fresh_world
       \<lparr>svcs := (svcs fresh_world)
                  (0 := (Service_init ''launcher'')
                          \<lparr>on_ready_changed := [UpdateServicesReady 0, External 7]\<rparr>),
        ctrs := (ctrs fresh_world)
                  (0 := \<lparr>ctr_services = [0], services_ready = False,
                         on_services_ready_changed = [3]\<rparr>)\<rparr>"

text \<open>Service 0 after two records were added to it, first \<open>info_a\<close>, then \<open>info_b\<close>.\<close>

definition two_records_world :: world where
  "two_records_world =
     state_of (add_service_info 0 info_b (state_of (add_service_info 0 info_a fresh_world)))"

text \<open>A filter that asks for a \<^verbatim>\<open>uuid\<close>, and a record that announces none.\<close>

definition uuid_filter :: service_discovery_filter where
  "uuid_filter = \<lparr>flt_name = '''', txt_records = [(''uuid'', ''abc-123'')]\<rparr>"

definition info_c :: service_info where
  "info_c = \<lparr>si_type = ''_machinekit._tcp.local.'', si_name = ''host-c'',
             si_properties = [''service'' \<mapsto> ''launcher'']\<rparr>"

text \<open>Container 0 after \<^verbatim>\<open>add_service\<close> of Service 0.\<close>

definition member_world :: world where
  "member_world = state_of (container_add_service 0 (ServiceObj 0) fresh_world)"

text \<open>Service 0 is a launcher and Service 1 a status service; a discovery knows both.\<close>

definition two_types_world :: world where
  "two_types_world = fresh_world\<lparr>svcs := (svcs fresh_world)(1 := Service_init ''status'')\<rparr>"

definition both_registered :: service_discovery where
  "both_registered =
     (ServiceDiscovery_init ''machinekit'' ServiceDiscoveryFilter_init [] LOOKUP_INTERVAL)
       \<lparr>sd_services := [0, 1]\<rparr>"

text \<open>A discovery whose only nameserver address is the empty string.\<close>

definition blank_nameserver :: service_discovery where
  "blank_nameserver =
     ServiceDiscovery_init ''machinekit'' ServiceDiscoveryFilter_init [''''] LOOKUP_INTERVAL"

text \<open>A discovery with one nameserver and no Service.\<close>

definition unicast_empty :: service_discovery where
  "unicast_empty =
     ServiceDiscovery_init ''machinekit'' ServiceDiscoveryFilter_init [''10.0.0.1''] LOOKUP_INTERVAL"

text \<open>
  A multicast discovery: Service 0 was registered, the discovery started, and the record
  \<open>info_a\<close> was announced.
\<close>

definition running_example :: "service_discovery \<times> world" where
  "running_example =
     run [Register (ServiceObj 0), Start, RecordAdded (Some info_a)]
       (ServiceDiscovery_init ''machinekit'' ServiceDiscoveryFilter_init [] LOOKUP_INTERVAL,
        fresh_world)"

text \<open>A record of a launcher whose \<^verbatim>\<open>dsn\<close> value is the single byte 0xFF, which is not UTF-8.\<close>

definition info_bad :: service_info where
  "info_bad = \<lparr>si_type = ''_machinekit._tcp.local.'', si_name = ''host-x'',
               si_properties = [''service'' \<mapsto> ''launcher'', ''dsn'' \<mapsto> [CHR 0xFF],
                                ''uuid'' \<mapsto> ''ghi-789'', ''version'' \<mapsto> ''9'']\<rparr>"

text \<open>
  Service 0 after \<open>info_b\<close> and \<open>info_bad\<close> were added to it and a record was then removed.
\<close>

definition stale_world :: world where
  "stale_world =
     calls_on 0 [AddRecord info_b, AddRecord info_bad, RemoveRecord info_b] fresh_world"

section \<open>Proofs\<close>

subsection \<open>Callbacks leave the Services alone\<close>

lemma svcs_set_services_ready: "svcs (set_services_ready c v w) = svcs w"
  by (simp add: set_services_ready_def)

lemma svcs_update_services_ready: "svcs (update_services_ready c x w) = svcs w"
  by (simp add: update_services_ready_def svcs_set_services_ready)

lemma svcs_call_ready_cb: "svcs (call_ready_cb sid v w cb) = svcs w"
  by (cases cb) (simp_all add: svcs_update_services_ready)

lemma svcs_run_callbacks: "svcs (foldl (call_ready_cb sid v) w cbs) = svcs w"
  by (induction cbs arbitrary: w) (simp_all add: svcs_call_ready_cb)

lemma svcs_set_ready:
  "svcs (set_ready sid v w) = (svcs w)(sid := (svcs w sid)\<lparr>ready := v\<rparr>)"
  by (auto simp: set_ready_def svcs_run_callbacks)

subsection \<open>What \<open>update\<close> computes\<close>

lemma set_all_values_mirrors:
  "set_all_values_from_service_info info s = Returned s' \<Longrightarrow>
     mirrors info s' \<and> service_infos s' = service_infos s \<and> ready s' = ready s"
  by (auto simp: set_all_values_from_service_info_def mirrors_def Let_def split: option.splits)

lemma update_consistent:
  assumes "update sid w = Returned w'"
  shows "service_consistent (svcs w' sid) \<and>
         service_infos (svcs w' sid) = service_infos (svcs w sid)"
proof (cases "service_infos (svcs w sid)")
  case Nil
  with assms show ?thesis
    by (auto simp: update_def Let_def put_service_def svcs_set_ready init_all_values_def
        service_consistent_def)
next
  case (Cons info rest)
  with assms obtain s' where s': "set_all_values_from_service_info info (svcs w sid) = Returned s'"
    and w': "w' = set_ready sid True (put_service sid s' w)"
    by (auto simp: update_def split: outcome.splits)
  from set_all_values_mirrors[OF s'] Cons show ?thesis
    by (simp add: w' svcs_set_ready put_service_def service_consistent_def mirrors_def)
qed

text \<open>
  \<open>update\<close> raises only from a decoding: it returns as soon as the \<^verbatim>\<open>dsn\<close> and
  \<^verbatim>\<open>uuid\<close> values of the first record are well-formed UTF-8.
\<close>

lemma update_returns:
  assumes "\<And>info rest. service_infos (svcs w sid) = info # rest \<Longrightarrow>
             decode (dict_get (si_properties info) ''dsn'' '''') \<noteq> None \<and>
             decode (dict_get (si_properties info) ''uuid'' '''') \<noteq> None"
  shows "returned (update sid w)"
proof (cases "service_infos (svcs w sid)")
  case Nil
  then show ?thesis by (simp add: update_def Let_def)
next
  case (Cons info rest)
  with assms[OF Cons] show ?thesis
    by (auto simp: update_def set_all_values_from_service_info_def Let_def)
qed

lemma update_empty:
  assumes "service_infos (svcs w sid) = []"
  shows "\<exists>w'. update sid w = Returned w' \<and> svcs w' = (svcs w)(sid := cleared (svcs w sid))"
proof -
  have "init_all_values ((svcs w sid)\<lparr>ready := False\<rparr>) = cleared (svcs w sid)"
    by (rule service.equality) (simp_all add: init_all_values_def cleared_def assms)
  with assms show ?thesis
    by (simp add: update_def Let_def put_service_def svcs_set_ready)
qed

lemma clear_service_infos_returns:
  "\<exists>w'. clear_service_infos sid w = Returned w' \<and> svcs w' = (svcs w)(sid := cleared (svcs w sid))"
proof -
  let ?w0 = "put_service sid ((svcs w sid)\<lparr>service_infos := []\<rparr>) w"
  have "service_infos (svcs ?w0 sid) = []"
    by (simp add: put_service_def)
  from update_empty[OF this] show ?thesis
    by (auto simp: clear_service_infos_def put_service_def cleared_def)
qed

subsection \<open>Evaluating the examples\<close>

lemmas eval_service =
  add_service_info_def remove_service_info_def clear_service_infos_def update_def
  put_service_def set_all_values_from_service_info_def init_all_values_def decode_def
  dict_get_def set_ready_def cont_def Let_def

lemmas eval_examples = fresh_world_def info_a_def info_b_def Service_init_def
  ServiceContainer_init_def

lemma add_a_returns:
  "add_service_info 0 info_a fresh_world =
     Returned (state_of (add_service_info 0 info_a fresh_world))"
  by (simp add: eval_service eval_examples)

lemma remove_b_returns:
  "remove_service_info 0 info_b fresh_world =
     Returned (state_of (remove_service_info 0 info_b fresh_world))"
  by (simp add: eval_service eval_examples)

lemma clear_returns:
  "clear_service_infos 0 fresh_world = Returned (state_of (clear_service_infos 0 fresh_world))"
  by (simp add: eval_service eval_examples)

lemma add_b_returns:
  "add_service_info 0 info_b fresh_world =
     Returned (state_of (add_service_info 0 info_b fresh_world))"
  by (simp add: eval_service eval_examples)

subsection \<open>The log of callback invocations\<close>

lemma calls_set_services_ready:
  "calls (set_services_ready c v w) =
     calls w @ (if v \<noteq> services_ready (ctrs w c)
                then map (\<lambda>k. ServicesReadyChanged c k v) (on_services_ready_changed (ctrs w c))
                else [])"
  by (simp add: set_services_ready_def)

lemma ready_events_append: "ready_events (xs @ ys) = ready_events xs @ ready_events ys"
  by (simp add: ready_events_def)

lemma ready_events_container: "ready_events (map (\<lambda>k. ServicesReadyChanged c k v) ks) = []"
  by (induction ks) (simp_all add: ready_events_def)

lemma ready_events_update_services_ready:
  "ready_events (calls (update_services_ready c x w)) = ready_events (calls w)"
  by (simp add: update_services_ready_def calls_set_services_ready ready_events_append
      ready_events_container, simp add: ready_events_def)

lemma prefix_update_services_ready: "prefix (calls w) (calls (update_services_ready c x w))"
  by (simp add: update_services_ready_def calls_set_services_ready)

lemma ready_events_call_ready_cb:
  "ready_events (calls (call_ready_cb sid v w cb)) = ready_events (calls w) @ [ReadyChanged sid cb v]"
  by (cases cb) (simp_all add: ready_events_update_services_ready, simp_all add: ready_events_def)

lemma prefix_call_ready_cb: "prefix (calls w) (calls (call_ready_cb sid v w cb))"
proof (cases cb)
  case (UpdateServicesReady c)
  let ?w1 = "w\<lparr>calls := calls w @ [ReadyChanged sid (UpdateServicesReady c) v]\<rparr>"
  have "prefix (calls w) (calls ?w1)" by simp
  also have "prefix (calls ?w1) (calls (update_services_ready c v ?w1))"
    by (rule prefix_update_services_ready)
  finally show ?thesis using UpdateServicesReady by simp
next
  case (External k)
  then show ?thesis by simp
qed

lemma ready_events_run_callbacks:
  "ready_events (calls (foldl (call_ready_cb sid v) w cbs)) =
     ready_events (calls w) @ map (\<lambda>cb. ReadyChanged sid cb v) cbs"
  by (induction cbs arbitrary: w) (simp_all add: ready_events_call_ready_cb)

lemma prefix_run_callbacks: "prefix (calls w) (calls (foldl (call_ready_cb sid v) w cbs))"
proof (induction cbs arbitrary: w)
  case Nil
  show ?case by simp
next
  case (Cons cb cbs)
  have "prefix (calls w) (calls (call_ready_cb sid v w cb))"
    by (rule prefix_call_ready_cb)
  also have "prefix \<dots> (calls (foldl (call_ready_cb sid v) (call_ready_cb sid v w cb) cbs))"
    by (rule Cons.IH)
  finally show ?case by simp
qed

subsection \<open>Containers and callbacks\<close>

lemma consistent_update_services_ready: "container_consistent (update_services_ready c x w) c"
  by (simp add: container_consistent_def update_services_ready_def set_services_ready_def)

lemma consistent_update_other:
  assumes "container_consistent w c"
  shows "container_consistent (update_services_ready c' x w) c"
proof (cases "c' = c")
  case True
  then show ?thesis by (simp add: consistent_update_services_ready)
next
  case False
  with assms show ?thesis
    by (simp add: container_consistent_def update_services_ready_def set_services_ready_def)
qed

lemma consistent_call_ready_cb:
  assumes "container_consistent w c \<or> cb = UpdateServicesReady c"
  shows "container_consistent (call_ready_cb sid v w cb) c"
proof (cases cb)
  case (External k)
  with assms show ?thesis by (simp add: container_consistent_def)
next
  case (UpdateServicesReady c')
  show ?thesis
  proof (cases "c' = c")
    case True
    with UpdateServicesReady show ?thesis by (simp add: consistent_update_services_ready)
  next
    case False
    with assms UpdateServicesReady
    have "container_consistent (w\<lparr>calls := calls w @ [ReadyChanged sid cb v]\<rparr>) c"
      by (simp add: container_consistent_def)
    from consistent_update_other[OF this] UpdateServicesReady show ?thesis by simp
  qed
qed

lemma consistent_run_callbacks:
  "container_consistent w c \<or> UpdateServicesReady c \<in> set cbs \<Longrightarrow>
     container_consistent (foldl (call_ready_cb sid v) w cbs) c"
proof (induction cbs arbitrary: w)
  case Nil
  then show ?case by simp
next
  case (Cons cb cbs)
  show ?case
  proof (cases "container_consistent w c \<or> cb = UpdateServicesReady c")
    case True
    from consistent_call_ready_cb[OF this] have "container_consistent (call_ready_cb sid v w cb) c" .
    with Cons.IH show ?thesis by simp
  next
    case False
    with Cons.prems have "UpdateServicesReady c \<in> set cbs" by auto
    with Cons.IH show ?thesis by simp
  qed
qed

lemma set_ready_flip:
  "v \<noteq> ready (svcs w sid) \<Longrightarrow>
     set_ready sid v w =
       foldl (call_ready_cb sid v) (w\<lparr>svcs := (svcs w)(sid := (svcs w sid)\<lparr>ready := v\<rparr>)\<rparr>)
         (on_ready_changed (svcs w sid))"
  unfolding set_ready_def by (rule if_P)

subsection \<open>The filter\<close>

lemma txt_loop_all_present:
  "fst ` set items \<subseteq> dom (si_properties info) \<Longrightarrow>
     txt_loop items info m = Inr (m \<and> (\<forall>(k, v) \<in> set items. si_properties info k = Some v))"
  by (induction items arbitrary: m) (auto split: option.splits)

lemma filter_matches_type_error:
  "(\<forall>info. obj \<noteq> ServiceInfoObj info) \<Longrightarrow> filter_matches_service_info f obj = Inl TypeError"
  by (cases obj) (simp_all add: filter_matches_service_info_def)

lemma filter_matches_all_present:
  "fst ` set (txt_records f) \<subseteq> dom (si_properties info) \<Longrightarrow>
     filter_matches_service_info f (ServiceInfoObj info) =
       Inr (sublist (flt_name f) (si_name info) \<and>
            (\<forall>(k, v) \<in> set (txt_records f). si_properties info k = Some v))"
  by (simp add: filter_matches_service_info_def txt_loop_all_present)

subsection \<open>Removing a record\<close>

lemma set_all_values_keeps_records:
  "service_infos (state_of (set_all_values_from_service_info info s)) = service_infos s"
  by (simp add: set_all_values_from_service_info_def Let_def split: option.splits)

lemma update_keeps_records:
  "service_infos (svcs (state_of (update sid w)) sid) = service_infos (svcs w sid)"
proof (cases "service_infos (svcs w sid)")
  case Nil
  then show ?thesis
    by (simp add: update_def Let_def put_service_def init_all_values_def svcs_set_ready)
next
  case (Cons info rest)
  show ?thesis
  proof (cases "set_all_values_from_service_info info (svcs w sid)")
    case (Returned s')
    with set_all_values_keeps_records[of info "svcs w sid"] Cons show ?thesis
      by (simp add: update_def put_service_def svcs_set_ready)
  next
    case (Raised e s')
    with set_all_values_keeps_records[of info "svcs w sid"] Cons show ?thesis
      by (simp add: update_def put_service_def)
  qed
qed

lemma remove_service_info_ignores_argument:
  "remove_service_info sid i w = remove_service_info sid j w"
  by (simp add: remove_service_info_def)

lemma two_records:
  "service_infos (svcs two_records_world 0) = [info_a, info_b] \<and>
   name (svcs two_records_world 0) = ''host-a''"
  by (simp add: two_records_world_def eval_service eval_examples)

subsection \<open>The rest of the store under the Service methods\<close>

lemma zc_set_services_ready:
  "zc_closed (set_services_ready c v w) = zc_closed w \<and>
   zc_count (set_services_ready c v w) = zc_count w"
  by (simp add: set_services_ready_def)

lemma zc_call_ready_cb:
  "zc_closed (call_ready_cb sid v w cb) = zc_closed w \<and>
   zc_count (call_ready_cb sid v w cb) = zc_count w"
  by (cases cb) (simp_all add: update_services_ready_def zc_set_services_ready)

lemma zc_run_callbacks:
  "zc_closed (foldl (call_ready_cb sid v) w cbs) = zc_closed w \<and>
   zc_count (foldl (call_ready_cb sid v) w cbs) = zc_count w"
  by (induction cbs arbitrary: w) (simp_all add: zc_call_ready_cb)

lemma zc_set_ready:
  "zc_closed (set_ready sid v w) = zc_closed w \<and> zc_count (set_ready sid v w) = zc_count w"
  by (simp add: set_ready_def zc_run_callbacks)

lemma zc_update:
  "zc_closed (state_of (update sid w)) = zc_closed w \<and>
   zc_count (state_of (update sid w)) = zc_count w"
  by (simp add: update_def Let_def put_service_def zc_set_ready
      split: list.splits outcome.splits)

subsection \<open>Stopping\<close>

lemma clear_service_infos_zc:
  "zc_closed (state_of (clear_service_infos sid w)) = zc_closed w"
  using zc_update[of sid "put_service sid ((svcs w sid)\<lparr>service_infos := []\<rparr>) w"]
  by (simp add: clear_service_infos_def put_service_def)

lemma cleared_idem: "cleared (cleared s) = cleared s"
  by (simp add: cleared_def)

lemma clear_all_returns:
  "\<exists>w'. clear_all sids w = Returned w' \<and>
        zc_closed w' = zc_closed w \<and>
        (\<forall>x. svcs w' x = (if x \<in> set sids then cleared (svcs w x) else svcs w x))"
proof (induction sids arbitrary: w)
  case Nil
  show ?case by simp
next
  case (Cons sid rest)
  from clear_service_infos_returns[of sid w] obtain w1
    where w1: "clear_service_infos sid w = Returned w1"
      and s1: "svcs w1 = (svcs w)(sid := cleared (svcs w sid))"
    by blast
  from clear_service_infos_zc[of sid w] w1 have z1: "zc_closed w1 = zc_closed w"
    by simp
  from Cons.IH[of w1] obtain w' where w': "clear_all rest w1 = Returned w'"
    and z': "zc_closed w' = zc_closed w1"
    and s': "\<forall>x. svcs w' x = (if x \<in> set rest then cleared (svcs w1 x) else svcs w1 x)"
    by blast
  have "\<forall>x. svcs w' x = (if x \<in> set (sid # rest) then cleared (svcs w x) else svcs w x)"
    using s' s1 by (simp add: cleared_idem)
  with w1 w' z1 z' show ?case by simp
qed

subsection \<open>The lifecycle of a ServiceDiscovery\<close>

lemma lifecycle_ok_init: "lifecycle_ok (ServiceDiscovery_init st f ns li)"
  by (simp add: lifecycle_ok_def ServiceDiscovery_init_def no_browsers_def)

lemma start_unicast_sessions:
  "list_all (\<lambda>b. br_zeroconf b \<in> set (fst zb)) (snd zb) \<Longrightarrow>
     list_all (\<lambda>b. br_zeroconf b \<in> set (fst (fst (start_unicast_discovery d sids zb w))))
       (snd (fst (start_unicast_discovery d sids zb w)))"
proof (induction sids arbitrary: zb w)
  case Nil
  then show ?case by simp
next
  case (Cons sid rest)
  show ?case
    unfolding start_unicast_discovery.simps Let_def
    by (rule Cons.IH) (use Cons.prems in \<open>auto simp: list_all_iff\<close>)
qed

lemma start_discovery_fields:
  "is_ready (fst (start_discovery d w)) = is_ready d \<and>
   sd_services (fst (start_discovery d w)) = sd_services d \<and>
   nameservers (fst (start_discovery d w)) = nameservers d"
  by (simp add: start_discovery_def split_def Let_def)

lemma start_discovery_sessions:
  "\<exists>zs bs. zeroconfs (fst (start_discovery d w)) = Some zs \<and>
           browsers (fst (start_discovery d w)) = Some bs \<and>
           list_all (\<lambda>b. br_zeroconf b \<in> set zs) bs"
proof (cases "any_nameserver (nameservers d)")
  case True
  have "list_all (\<lambda>b. br_zeroconf b \<in> set (fst ([], []))) (snd (([], []) :: sessions))"
    by simp
  from start_unicast_sessions[OF this, of d "sd_services d" w] True show ?thesis
    by (simp add: start_discovery_def split_def Let_def)
next
  case False
  then show ?thesis
    by (simp add: start_discovery_def split_def start_multicast_discovery_def Let_def)
qed

lemma start_ok:
  assumes "lifecycle_ok d"
  shows "\<exists>d' w'. start d w = Returned (d', w') \<and> lifecycle_ok d' \<and> is_ready d'"
proof (cases "no_browsers d")
  case True
  let ?r = "start_discovery (d\<lparr>is_ready := True\<rparr>) w"
  from start_discovery_sessions[of "d\<lparr>is_ready := True\<rparr>" w]
    start_discovery_fields[of "d\<lparr>is_ready := True\<rparr>" w]
  have "lifecycle_ok (fst ?r) \<and> is_ready (fst ?r)"
    by (auto simp: lifecycle_ok_def)
  with True show ?thesis
    by (simp add: start_def) (metis prod.collapse)
next
  case False
  with assms show ?thesis by (simp add: start_def lifecycle_ok_def)
qed

lemma stop_running:
  assumes "lifecycle_ok d" "\<not> no_browsers d"
  shows "\<exists>zs bs w'. zeroconfs d = Some zs \<and> browsers d = Some bs \<and>
           stop d w = Returned (d\<lparr>is_ready := False, zeroconfs := Some [], browsers := Some []\<rparr>, w') \<and>
           zc_closed w' = zc_closed w @ map zc_id zs \<and>
           (\<forall>b \<in> set bs. zc_id (br_zeroconf b) \<in> set (zc_closed w')) \<and>
           (\<forall>x. svcs w' x = (if x \<in> set (sd_services d) then cleared (svcs w x) else svcs w x))"
proof -
  from assms obtain zs bs where zs: "zeroconfs d = Some zs" and bs: "browsers d = Some bs"
    and sub: "list_all (\<lambda>b. br_zeroconf b \<in> set zs) bs"
    by (auto simp: lifecycle_ok_def no_browsers_def split: option.splits)
  let ?w1 = "w\<lparr>zc_closed := zc_closed w @ map zc_id zs\<rparr>"
  from clear_all_returns[of "sd_services d" ?w1] obtain w'
    where w': "clear_all (sd_services d) ?w1 = Returned w'"
      and z': "zc_closed w' = zc_closed ?w1"
      and s': "\<forall>x. svcs w' x = (if x \<in> set (sd_services d) then cleared (svcs ?w1 x) else svcs ?w1 x)"
    by blast
  have "stop d w = Returned (d\<lparr>is_ready := False, zeroconfs := Some [], browsers := Some []\<rparr>, w')"
    using assms(2) zs bs w' by (simp add: stop_def stop_discovery_def Let_def)
  moreover have "\<forall>b \<in> set bs. zc_id (br_zeroconf b) \<in> set (zc_closed w')"
    using sub z' by (auto simp: list_all_iff)
  ultimately show ?thesis using zs bs z' s' by simp
qed

lemma stop_ok:
  assumes "lifecycle_ok d"
  shows "lifecycle_ok (fst (state_of (stop d w)))"
proof (cases "no_browsers d")
  case True
  with assms show ?thesis by (simp add: stop_def)
next
  case False
  from stop_running[OF assms False, of w] show ?thesis
    by (auto simp: lifecycle_ok_def no_browsers_def)
qed

lemma with_services_fields:
  "is_ready (fst (state_of (with_services d w r))) = is_ready d \<and>
   browsers (fst (state_of (with_services d w r))) = browsers d \<and>
   zeroconfs (fst (state_of (with_services d w r))) = zeroconfs d"
  by (cases r) (simp_all add: with_services_def)

lemma register_fields:
  "is_ready (fst (state_of (register d w item))) = is_ready d \<and>
   browsers (fst (state_of (register d w item))) = browsers d \<and>
   zeroconfs (fst (state_of (register d w item))) = zeroconfs d"
  by (simp add: register_def with_services_fields)

lemma unregister_fields:
  "is_ready (fst (state_of (unregister d w item))) = is_ready d \<and>
   browsers (fst (state_of (unregister d w item))) = browsers d \<and>
   zeroconfs (fst (state_of (unregister d w item))) = zeroconfs d"
  by (simp add: unregister_def with_services_fields)

lemma with_discovery_fst: "fst (state_of (with_discovery d r)) = d"
  by (cases r) (simp_all add: with_discovery_def)

lemma lifecycle_ok_cong:
  "is_ready d' = is_ready d \<Longrightarrow> browsers d' = browsers d \<Longrightarrow> zeroconfs d' = zeroconfs d \<Longrightarrow>
     lifecycle_ok d' = lifecycle_ok d"
  by (auto simp: lifecycle_ok_def no_browsers_def split: option.splits)

lemma perform_ok:
  assumes "lifecycle_ok (fst s)"
  shows "lifecycle_ok (fst (state_of (perform a s)))"
proof (cases s)
  case (Pair d w)
  with assms have ok: "lifecycle_ok d" by simp
  show ?thesis
  proof (cases a)
    case Start
    from start_ok[OF ok, of w] Pair Start show ?thesis by auto
  next
    case Stop
    from stop_ok[OF ok, of w] Pair Stop show ?thesis by simp
  next
    case (Register item)
    with Pair ok register_fields[of d w item] show ?thesis
      by (simp add: lifecycle_ok_cong[of "fst (state_of (register d w item))" d])
  next
    case (Unregister item)
    with Pair ok unregister_fields[of d w item] show ?thesis
      by (simp add: lifecycle_ok_cong[of "fst (state_of (unregister d w item))" d])
  next
    case (RecordAdded r)
    with Pair ok show ?thesis by (simp add: with_discovery_fst)
  next
    case (RecordRemoved r)
    with Pair ok show ?thesis by (simp add: with_discovery_fst)
  qed
qed

lemma run_ok: "lifecycle_ok (fst s) \<Longrightarrow> lifecycle_ok (fst (run as s))"
  by (induction as arbitrary: s) (simp_all add: perform_ok)

lemma run_append: "run (xs @ ys) s = run ys (run xs s)"
  by (induction xs arbitrary: s) simp_all

lemma perform_keeps_ready:
  assumes "lifecycle_ok (fst s)" "is_ready (fst s)" "a \<noteq> Stop"
  shows "is_ready (fst (state_of (perform a s)))"
proof (cases s)
  case (Pair d w)
  with assms have ok: "lifecycle_ok d" and rd: "is_ready d" by simp_all
  show ?thesis
  proof (cases a)
    case Start
    from start_ok[OF ok, of w] Pair Start show ?thesis by auto
  next
    case Stop
    with assms(3) show ?thesis by simp
  next
    case (Register item)
    with Pair rd show ?thesis by (simp add: register_def)
  next
    case (Unregister item)
    with Pair rd show ?thesis by (simp add: unregister_def)
  next
    case (RecordAdded r)
    with Pair rd show ?thesis by (simp add: with_discovery_fst)
  next
    case (RecordRemoved r)
    with Pair rd show ?thesis by (simp add: with_discovery_fst)
  qed
qed

lemma run_keeps_ready:
  "lifecycle_ok (fst s) \<Longrightarrow> is_ready (fst s) \<Longrightarrow> Stop \<notin> set as \<Longrightarrow> is_ready (fst (run as s))"
proof (induction as arbitrary: s)
  case Nil
  then show ?case by simp
next
  case (Cons a as)
  from Cons.prems have "a \<noteq> Stop" by auto
  from perform_keeps_ready[OF Cons.prems(1,2) this] perform_ok[OF Cons.prems(1), of a]
    Cons.prems(3) Cons.IH
  show ?case by simp
qed

lemma running_after_start:
  assumes "Stop \<notin> set post"
  shows "is_ready (fst (run (pre @ Start # post) (ServiceDiscovery_init st f ns li, w0)))"
proof -
  let ?s1 = "run pre (ServiceDiscovery_init st f ns li, w0)"
  have ok1: "lifecycle_ok (fst ?s1)"
    by (rule run_ok) (simp add: lifecycle_ok_init)
  let ?s2 = "state_of (perform Start ?s1)"
  from start_ok[OF ok1, of "snd ?s1"]
  have "lifecycle_ok (fst ?s2) \<and> is_ready (fst ?s2)"
    by (cases ?s1) auto
  with assms have "is_ready (fst (run post ?s2))"
    by (simp add: run_keeps_ready)
  then show ?thesis by (simp add: run_append)
qed

lemmas eval_discovery =
  register_def unregister_def start_def stop_def start_discovery_def stop_discovery_def
  start_multicast_discovery_def any_nameserver_def no_browsers_def with_services_def
  with_discovery_def verify_item_and_run_def services_append_def services_remove_def
  add_service_def remove_service_def filter_matches_service_info_def matches_service_info_def
  typestring_def ServiceDiscovery_init_def ServiceDiscoveryFilter_init_def LOOKUP_INTERVAL_def

lemma running_example_eval:
  "sd_services (fst running_example) = [0] \<and>
   is_ready (fst running_example) \<and>
   browsers (fst running_example) =
     Some [ServiceBrowser (Zeroconf 0 False) ''_machinekit._tcp.local.'' None 500] \<and>
   zeroconfs (fst running_example) = Some [Zeroconf 0 False] \<and>
   service_infos (svcs (snd running_example) 0) = [info_a] \<and>
   ready (svcs (snd running_example) 0) \<and>
   zc_closed (snd running_example) = []"
  by (simp add: running_example_def eval_discovery eval_service eval_examples
      sublist_code prefix_code)

lemma stuck_perform:
  assumes "any_nameserver ns"
  shows "fst (state_of (perform a (started_idle (ServiceDiscovery_init st f ns li), w))) =
           started_idle (ServiceDiscovery_init st f ns li)"
  using assms
  by (cases a)
     (simp_all add: started_idle_def ServiceDiscovery_init_def register_def unregister_def
        start_def stop_def no_browsers_def start_discovery_def with_discovery_fst)

lemma stuck_run:
  assumes "any_nameserver ns"
  shows "fst (run hist (started_idle (ServiceDiscovery_init st f ns li), w)) =
           started_idle (ServiceDiscovery_init st f ns li)"
proof (induction hist arbitrary: w)
  case Nil
  show ?case by simp
next
  case (Cons a hist)
  let ?s = "state_of (perform a (started_idle (ServiceDiscovery_init st f ns li), w))"
  from stuck_perform[OF assms, of a st f li w]
  have "?s = (started_idle (ServiceDiscovery_init st f ns li), snd ?s)"
    by (metis prod.collapse)
  then have "run (a # hist) (started_idle (ServiceDiscovery_init st f ns li), w) =
      run hist (started_idle (ServiceDiscovery_init st f ns li), snd ?s)"
    by simp
  with Cons.IH show ?case by simp
qed

subsection \<open>Dispatching a record\<close>

lemma same_kind_refl: "same_kind s s"
  by (simp add: same_kind_def)

lemma same_kind_trans: "same_kind s t \<Longrightarrow> same_kind t u \<Longrightarrow> same_kind s u"
  by (simp add: same_kind_def)

lemma matches_same_kind:
  "same_kind s t \<Longrightarrow> matches_service_info s info = matches_service_info t info"
  by (simp add: same_kind_def matches_service_info_def typestring_def split: option.splits)

lemma matches_service_info_true:
  "matches_service_info s info = Inr True \<longleftrightarrow>
     decode (dict_get (si_properties info) ''service'' '''') = Some (svc_type s) \<and>
     sublist (typestring s) (si_type info)"
  by (auto simp: matches_service_info_def split: option.splits)

lemma set_all_values_same_kind:
  "same_kind (state_of (set_all_values_from_service_info info s)) s"
  by (simp add: set_all_values_from_service_info_def same_kind_def Let_def split: option.splits)

lemma update_same_kind:
  "same_kind (svcs (state_of (update sid w)) x) (svcs w x) \<and>
   (x \<noteq> sid \<longrightarrow> svcs (state_of (update sid w)) x = svcs w x)"
proof (cases "service_infos (svcs w sid)")
  case Nil
  then show ?thesis
    by (simp add: update_def Let_def put_service_def svcs_set_ready init_all_values_def
        same_kind_def)
next
  case (Cons info rest)
  from set_all_values_same_kind[of info "svcs w sid"] Cons show ?thesis
    by (cases "set_all_values_from_service_info info (svcs w sid)")
       (simp_all add: update_def put_service_def svcs_set_ready same_kind_def)
qed

lemma add_service_info_effect:
  assumes "add_service_info sid info w = Returned w'"
  shows "same_kind (svcs w' x) (svcs w x) \<and>
         service_infos (svcs w' x) = service_infos (svcs w x) @ (if x = sid then [info] else [])"
proof -
  let ?w0 = "put_service sid ((svcs w sid)\<lparr>service_infos := service_infos (svcs w sid) @ [info]\<rparr>) w"
  from assms have u: "update sid ?w0 = Returned w'"
    by (simp add: add_service_info_def)
  from update_same_kind[of sid ?w0 x] u
  have k: "same_kind (svcs w' x) (svcs ?w0 x)" and o: "x \<noteq> sid \<longrightarrow> svcs w' x = svcs ?w0 x"
    by simp_all
  have k0: "same_kind (svcs ?w0 x) (svcs w x)"
    by (simp add: put_service_def same_kind_def)
  from update_consistent[OF u]
  have r: "service_infos (svcs w' sid) = service_infos (svcs w sid) @ [info]"
    by (simp add: put_service_def)
  from same_kind_trans[OF k k0] o r show ?thesis
    by (auto simp: put_service_def)
qed

lemma dispatch_add:
  assumes "dispatch add_service_info f info sids w = Returned w'"
  shows "same_kind (svcs w' x) (svcs w x) \<and>
         service_infos (svcs w' x) =
           service_infos (svcs w x) @
             replicate (if filter_matches_service_info f (ServiceInfoObj info) = Inr True \<and>
                           matches_service_info (svcs w x) info = Inr True
                        then count_list sids x else 0) info"
  using assms
proof (induction sids arbitrary: w)
  case Nil
  then show ?case by (simp add: same_kind_refl)
next
  case (Cons sid rest)
  let ?fm = "filter_matches_service_info f (ServiceInfoObj info)"
  from Cons.prems obtain fm where fm: "?fm = Inr fm"
    by (cases ?fm) simp_all
  show ?case
  proof (cases fm)
    case False
    with fm Cons.prems have "dispatch add_service_info f info rest w = Returned w'"
      by simp
    from Cons.IH[OF this] fm False show ?thesis by simp
  next
    case True
    with fm Cons.prems obtain sm where sm: "matches_service_info (svcs w sid) info = Inr sm"
      by (cases "matches_service_info (svcs w sid) info") simp_all
    show ?thesis
    proof (cases sm)
      case False
      with fm True sm Cons.prems have "dispatch add_service_info f info rest w = Returned w'"
        by simp
      from Cons.IH[OF this] sm False show ?thesis by auto
    next
      case yes: True
      with fm True sm Cons.prems obtain w1 where w1: "add_service_info sid info w = Returned w1"
        and rest: "dispatch add_service_info f info rest w1 = Returned w'"
        by (cases "add_service_info sid info w") simp_all
      note e = add_service_info_effect[OF w1, of x]
      from e have m: "matches_service_info (svcs w1 x) info = matches_service_info (svcs w x) info"
        by (simp add: matches_same_kind)
      from Cons.IH[OF rest] e m have k: "same_kind (svcs w' x) (svcs w x)"
        by (blast intro: same_kind_trans)
      from Cons.IH[OF rest] e m sm yes fm True
      have "service_infos (svcs w' x) =
           service_infos (svcs w x) @
             replicate (if ?fm = Inr True \<and> matches_service_info (svcs w x) info = Inr True
                        then count_list (sid # rest) x else 0) info"
        by (auto simp: replicate_app_Cons_same)
      with k show ?thesis by simp
    qed
  qed
qed

subsection \<open>When the Service methods return, and what a raise leaves\<close>

lemma add_service_info_returns:
  assumes "decodable info" "\<forall>i \<in> set (service_infos (svcs w sid)). decodable i"
  shows "returned (add_service_info sid info w)"
  unfolding add_service_info_def
proof (rule update_returns)
  fix i rest
  assume "service_infos (svcs (put_service sid ((svcs w sid)
            \<lparr>service_infos := service_infos (svcs w sid) @ [info]\<rparr>) w) sid) = i # rest"
  then have "i \<in> set (service_infos (svcs w sid) @ [info])"
    by (simp add: put_service_def)
  with assms have "decodable i" by auto
  then show "decode (dict_get (si_properties i) ''dsn'' '''') \<noteq> None \<and>
             decode (dict_get (si_properties i) ''uuid'' '''') \<noteq> None"
    by (simp add: decodable_def)
qed

lemma remove_service_info_returns:
  assumes "\<forall>i \<in> set (service_infos (svcs w sid)). decodable i"
  shows "returned (remove_service_info sid info w)"
proof -
  let ?s = "svcs w sid"
  let ?w0 = "case find (\<lambda>i. name ?s = si_name i) (service_infos ?s) of
               Some i \<Rightarrow> put_service sid (?s\<lparr>service_infos := remove1 i (service_infos ?s)\<rparr>) w
             | None \<Rightarrow> w"
  have sub: "set (service_infos (svcs ?w0 sid)) \<subseteq> set (service_infos ?s)"
    using set_remove1_subset[of _ "service_infos ?s"]
    by (fastforce simp: put_service_def split: option.splits)
  have "returned (update sid ?w0)"
  proof (rule update_returns)
    fix i rest
    assume "service_infos (svcs ?w0 sid) = i # rest"
    then have "i \<in> set (service_infos (svcs ?w0 sid))" by simp
    with sub assms have "decodable i" by blast
    then show "decode (dict_get (si_properties i) ''dsn'' '''') \<noteq> None \<and>
               decode (dict_get (si_properties i) ''uuid'' '''') \<noteq> None"
      by (simp add: decodable_def)
  qed
  then show ?thesis by (simp add: remove_service_info_def Let_def)
qed

lemma decode_is_text: "decode x = Some u \<Longrightarrow> is_text u"
  by (auto simp: decode_def is_text_def split: if_splits)

lemma is_text_empty: "is_text ''''"
  by (simp add: is_text_def decode_def)

lemma set_all_values_well_typed:
  assumes "well_typed s"
  shows "well_typed (state_of (set_all_values_from_service_info info s))"
proof (cases "decode (dict_get (si_properties info) ''dsn'' '''')")
  case None
  with assms show ?thesis
    by (simp add: set_all_values_from_service_info_def well_typed_def)
next
  case (Some u)
  note u = decode_is_text[OF Some]
  show ?thesis
  proof (cases "decode (dict_get (si_properties info) ''uuid'' '''')")
    case None
    with assms Some u show ?thesis
      by (simp add: set_all_values_from_service_info_def well_typed_def)
  next
    case (Some i)
    with assms \<open>decode (dict_get (si_properties info) ''dsn'' '''') = Some u\<close> u
      decode_is_text[OF Some]
    show ?thesis
      by (simp add: set_all_values_from_service_info_def well_typed_def)
  qed
qed

lemma set_all_values_returned_bytes:
  "set_all_values_from_service_info info s = Returned s' \<Longrightarrow> is_bytes (version s')"
  by (auto simp: set_all_values_from_service_info_def Let_def split: option.splits)

lemma update_well_typed:
  assumes "well_typed (svcs w sid)"
  shows "well_typed (svcs (state_of (update sid w)) sid)"
proof (cases "service_infos (svcs w sid)")
  case Nil
  then show ?thesis
    by (simp add: update_def Let_def put_service_def svcs_set_ready init_all_values_def
        well_typed_def is_text_empty)
next
  case (Cons info rest)
  note t = set_all_values_well_typed[OF assms, of info]
  show ?thesis
  proof (cases "set_all_values_from_service_info info (svcs w sid)")
    case (Returned s')
    with t set_all_values_returned_bytes[OF Returned] Cons show ?thesis
      by (simp add: update_def put_service_def svcs_set_ready well_typed_def)
  next
    case (Raised e s')
    with t Cons show ?thesis
      by (simp add: update_def put_service_def)
  qed
qed

lemma call_service_well_typed:
  assumes "well_typed (svcs w sid)"
  shows "well_typed (svcs (state_of (call_service sid c w)) sid)"
proof (cases c)
  case (AddRecord info)
  have "well_typed (svcs (put_service sid ((svcs w sid)
          \<lparr>service_infos := service_infos (svcs w sid) @ [info]\<rparr>) w) sid)"
    using assms by (simp add: put_service_def well_typed_def)
  from update_well_typed[OF this] AddRecord show ?thesis
    by (simp add: add_service_info_def)
next
  case (RemoveRecord info)
  let ?s = "svcs w sid"
  let ?w0 = "case find (\<lambda>i. name ?s = si_name i) (service_infos ?s) of
               Some i \<Rightarrow> put_service sid (?s\<lparr>service_infos := remove1 i (service_infos ?s)\<rparr>) w
             | None \<Rightarrow> w"
  have "well_typed (svcs ?w0 sid)"
    using assms by (simp add: put_service_def well_typed_def split: option.splits)
  from update_well_typed[OF this] RemoveRecord show ?thesis
    by (simp add: remove_service_info_def Let_def)
next
  case ClearRecords
  have "well_typed (svcs (put_service sid ((svcs w sid)\<lparr>service_infos := []\<rparr>) w) sid)"
    using assms by (simp add: put_service_def well_typed_def)
  from update_well_typed[OF this] ClearRecords show ?thesis
    by (simp add: clear_service_infos_def)
qed

lemma calls_on_well_typed:
  "well_typed (svcs w sid) \<Longrightarrow> well_typed (svcs (calls_on sid cs w) sid)"
  by (induction cs arbitrary: w) (simp_all add: call_service_well_typed)

lemma well_typed_init: "well_typed (Service_init t)"
  by (simp add: well_typed_def Service_init_def is_text_empty)

lemma call_service_consistent:
  "call_service sid c w = Returned w' \<Longrightarrow> service_consistent (svcs w' sid)"
  by (cases c)
     (auto simp: add_service_info_def remove_service_info_def clear_service_infos_def Let_def
        dest: update_consistent)

lemma bad_add_eval:
  "add_service_info 0 info_bad fresh_world =
     Raised UnicodeDecodeError (state_of (add_service_info 0 info_bad fresh_world)) \<and>
   service_infos (svcs (state_of (add_service_info 0 info_bad fresh_world)) 0) = [info_bad] \<and>
   \<not> ready (svcs (state_of (add_service_info 0 info_bad fresh_world)) 0) \<and>
   name (svcs (state_of (add_service_info 0 info_bad fresh_world)) 0) = ''host-x''"
  by (simp add: eval_service eval_examples info_bad_def)

lemma stale_world_eval:
  "ready (svcs stale_world 0) \<and> service_infos (svcs stale_world 0) = [info_bad] \<and>
   version (svcs stale_world 0) = PyBytes ''2''"
proof -
  let ?w1 = "state_of (add_service_info 0 info_b fresh_world)"
  let ?w2 = "state_of (add_service_info 0 info_bad ?w1)"
  have names: "si_name info_b = ''host-b''" "si_name info_bad = ''host-x''"
    by (simp_all add: info_b_def info_bad_def)
  then have ne: "info_b \<noteq> info_bad" by auto
  have s2: "service_infos (svcs ?w2 0) = [info_b, info_bad] \<and> name (svcs ?w2 0) = ''host-b'' \<and>
            ready (svcs ?w2 0) \<and> version (svcs ?w2 0) = PyBytes ''2''"
    by (simp add: eval_service eval_examples)
  with names have f: "find (\<lambda>i. name (svcs ?w2 0) = si_name i) (service_infos (svcs ?w2 0)) =
      Some info_b"
    by simp
  from s2 ne have r: "remove1 info_b (service_infos (svcs ?w2 0)) = [info_bad]"
    by simp
  let ?w3 = "put_service 0 ((svcs ?w2 0)\<lparr>service_infos := [info_bad]\<rparr>) ?w2"
  from f r have "remove_service_info 0 info_b ?w2 = update 0 ?w3"
    by (simp add: remove_service_info_def Let_def)
  then have st: "stale_world = state_of (update 0 ?w3)"
    by (simp add: stale_world_def)
  have u: "update 0 ?w3 = Raised UnicodeDecodeError
             (put_service 0 ((svcs ?w3 0)\<lparr>name := ''host-x''\<rparr>) ?w3)"
    by (simp add: update_def put_service_def set_all_values_from_service_info_def decode_def
        dict_get_def info_bad_def)
  let ?w4 = "put_service 0 ((svcs ?w3 0)\<lparr>name := ''host-x''\<rparr>) ?w3"
  from st u have e: "stale_world = ?w4"
    by (simp only: state_of.simps)
  from s2 have "ready (svcs ?w4 0) \<and> service_infos (svcs ?w4 0) = [info_bad] \<and>
      version (svcs ?w4 0) = PyBytes ''2''"
    by (simp add: put_service_def)
  then show ?thesis unfolding e .
qed

lemma dispatch_add_returns:
  assumes "fst ` set (txt_records f) \<subseteq> dom (si_properties info)"
    and "decode (dict_get (si_properties info) ''service'' '''') \<noteq> None"
    and "decodable info"
    and "\<forall>sid \<in> set sids. \<forall>i \<in> set (service_infos (svcs w sid)). decodable i"
  shows "returned (dispatch add_service_info f info sids w)"
  using assms(4)
proof (induction sids arbitrary: w)
  case Nil
  show ?case by simp
next
  case (Cons sid rest)
  let ?fm = "sublist (flt_name f) (si_name info) \<and>
             (\<forall>(k, v) \<in> set (txt_records f). si_properties info k = Some v)"
  have fm: "filter_matches_service_info f (ServiceInfoObj info) = Inr ?fm"
    by (rule filter_matches_all_present[OF assms(1)])
  from assms(2) obtain sm where sm: "matches_service_info (svcs w sid) info = Inr sm"
    by (auto simp: matches_service_info_def)
  from Cons.prems have keep: "\<forall>x \<in> set rest. \<forall>i \<in> set (service_infos (svcs w x)). decodable i"
    by simp
  show ?case
  proof (cases "?fm \<and> sm")
    case False
    from Cons.IH[OF keep] False show ?thesis
      by (auto simp: fm sm simp del: split_paired_All)
  next
    case True
    from Cons.prems have "\<forall>i \<in> set (service_infos (svcs w sid)). decodable i"
      by simp
    from add_service_info_returns[OF assms(3) this] obtain w1
      where w1: "add_service_info sid info w = Returned w1"
      by (cases "add_service_info sid info w") simp_all
    have "\<forall>x \<in> set rest. \<forall>i \<in> set (service_infos (svcs w1 x)). decodable i"
      using add_service_info_effect[OF w1] keep Cons.prems assms(3) by auto
    from Cons.IH[OF this] True w1 show ?thesis
      by (auto simp: fm sm simp del: split_paired_All)
  qed
qed

section \<open>The claims\<close>

text \<open>
  C1, as the code has it. After \<^verbatim>\<open>add_service_info\<close>, \<^verbatim>\<open>remove_service_info\<close> or
  \<^verbatim>\<open>clear_service_infos\<close> has returned, whatever the Service was before: \<open>ready\<close> is
  true iff the list of records is not empty; when it is true, \<open>name\<close>, \<open>uri\<close>, \<open>uuid\<close> and
  \<open>version\<close> are those of the first record; when it is false, \<open>name\<close>, \<open>uri\<close> and \<open>uuid\<close>
  are the empty string and \<open>version\<close> is the integer 0. \<^verbatim>\<open>clear_service_infos\<close>
  always returns; \<^verbatim>\<open>remove_service_info\<close> returns when the \<^verbatim>\<open>dsn\<close> and \<^verbatim>\<open>uuid\<close> values
  of every stored record are UTF-8, and \<^verbatim>\<open>add_service_info\<close> when those of the new
  record are UTF-8 as well.
\<close>

theorem service_invariant_after_mutation:
  "(add_service_info sid info w = Returned w' \<longrightarrow> service_consistent (svcs w' sid)) \<and>
   (remove_service_info sid info w = Returned w' \<longrightarrow> service_consistent (svcs w' sid)) \<and>
   (clear_service_infos sid w = Returned w' \<longrightarrow> service_consistent (svcs w' sid)) \<and>
   returned (clear_service_infos sid w) \<and>
   ((\<forall>i \<in> set (service_infos (svcs w sid)). decodable i) \<longrightarrow>
      returned (remove_service_info sid info w) \<and>
      (decodable info \<longrightarrow> returned (add_service_info sid info w)))"
proof -
  from clear_service_infos_returns[of sid w] have "returned (clear_service_infos sid w)"
    by auto
  moreover have "returned (remove_service_info sid info w) \<and>
      (decodable info \<longrightarrow> returned (add_service_info sid info w))"
    if "\<forall>i \<in> set (service_infos (svcs w sid)). decodable i"
    using that add_service_info_returns[of info w sid] remove_service_info_returns[of w sid info]
    by blast
  moreover have "add_service_info sid info w = Returned w' \<longrightarrow> service_consistent (svcs w' sid)"
    "remove_service_info sid info w = Returned w' \<longrightarrow> service_consistent (svcs w' sid)"
    "clear_service_infos sid w = Returned w' \<longrightarrow> service_consistent (svcs w' sid)"
    by (auto simp: add_service_info_def remove_service_info_def clear_service_infos_def Let_def
        dest: update_consistent)
  ultimately show ?thesis by blast
qed

theorem service_invariant_after_mutation_witness:
  "decodable info_a \<and> service_infos (svcs fresh_world 0) = [] \<and>
   returned (add_service_info 0 info_a fresh_world) \<and>
   service_consistent (svcs (state_of (add_service_info 0 info_a fresh_world)) 0) \<and>
   returned (remove_service_info 0 info_b fresh_world) \<and>
   service_consistent (svcs (state_of (remove_service_info 0 info_b fresh_world)) 0) \<and>
   returned (clear_service_infos 0 fresh_world) \<and>
   service_consistent (svcs (state_of (clear_service_infos 0 fresh_world)) 0)"
proof -
  have d: "decodable info_a" "service_infos (svcs fresh_world 0) = []"
    by (simp_all add: decodable_def decode_def dict_get_def cont_def eval_examples)
  from service_invariant_after_mutation[of 0 info_a fresh_world
          "state_of (add_service_info 0 info_a fresh_world)"]
        service_invariant_after_mutation[of 0 info_b fresh_world
          "state_of (remove_service_info 0 info_b fresh_world)"]
        service_invariant_after_mutation[of 0 info_b fresh_world
          "state_of (clear_service_infos 0 fresh_world)"]
        add_a_returns remove_b_returns clear_returns d
  show ?thesis by (metis returned.simps(1))
qed

text \<open>
  C1 as stated fails after a call that raises. On a new Service, \<^verbatim>\<open>add_service_info\<close>
  of a record whose \<^verbatim>\<open>dsn\<close> value is not UTF-8 appends the record, sets \<open>name\<close> and
  raises \<^verbatim>\<open>UnicodeDecodeError\<close> from the decoding: the Service holds one record, is not
  ready, and its \<open>name\<close> is not empty.
\<close>

theorem undecodable_record_counterexample:
  "add_service_info 0 info_bad fresh_world =
     Raised UnicodeDecodeError (state_of (add_service_info 0 info_bad fresh_world)) \<and>
   service_infos (svcs (state_of (add_service_info 0 info_bad fresh_world)) 0) = [info_bad] \<and>
   \<not> ready (svcs (state_of (add_service_info 0 info_bad fresh_world)) 0) \<and>
   name (svcs (state_of (add_service_info 0 info_bad fresh_world)) 0) = ''host-x'' \<and>
   \<not> service_consistent (svcs (state_of (add_service_info 0 info_bad fresh_world)) 0)"
  using bad_add_eval by (simp add: service_consistent_def)

text \<open>
  C10, as the code has it. A new Service is not ready and its \<open>version\<close> is the integer 0.
  In every state a Service reaches through calls of its mutating methods, whether they
  returned or raised, \<open>version\<close> is a byte string while the Service is ready, so it is an
  integer only when the Service is not ready, and \<open>uri\<close> and \<open>uuid\<close> are text. After a
  mutating call that has returned: if the Service is ready, \<open>version\<close> is the raw value
  of the \<^verbatim>\<open>version\<close> TXT property of the first record, or the empty byte string when the
  record has no such key, \<open>name\<close> is the first record's name and \<open>uri\<close> and \<open>uuid\<close> are
  its decoded \<^verbatim>\<open>dsn\<close> and \<^verbatim>\<open>uuid\<close> values; if it is not ready, \<open>version\<close> is the integer
  0 and \<open>name\<close>, \<open>uri\<close> and \<open>uuid\<close> are the empty string.
\<close>

theorem version_bytes_iff_ready:
  "(version (Service_init t) = PyInt 0 \<and> \<not> ready (Service_init t) \<and>
    well_typed (Service_init t)) \<and>
   (well_typed (svcs w sid) \<longrightarrow> well_typed (svcs (state_of (call_service sid c w)) sid)) \<and>
   (svcs w sid = Service_init t \<longrightarrow> well_typed (svcs (calls_on sid cs w) sid)) \<and>
   (add_service_info sid info w = Returned w' \<or>
    remove_service_info sid info w = Returned w' \<or>
    clear_service_infos sid w = Returned w' \<longrightarrow>
      (ready (svcs w' sid) \<longrightarrow>
         (\<exists>i rest. service_infos (svcs w' sid) = i # rest \<and>
            version (svcs w' sid) = PyBytes (dict_get (si_properties i) ''version'' '''') \<and>
            (si_properties i ''version'' = None \<longrightarrow> version (svcs w' sid) = PyBytes '''') \<and>
            name (svcs w' sid) = si_name i \<and>
            decode (dict_get (si_properties i) ''dsn'' '''') = Some (uri (svcs w' sid)) \<and>
            decode (dict_get (si_properties i) ''uuid'' '''') = Some (uuid (svcs w' sid)))) \<and>
      (\<not> ready (svcs w' sid) \<longrightarrow>
         version (svcs w' sid) = PyInt 0 \<and> name (svcs w' sid) = '''' \<and>
         uri (svcs w' sid) = '''' \<and> uuid (svcs w' sid) = '''') \<and>
      (\<forall>n. version (svcs w' sid) = PyInt n \<longrightarrow> \<not> ready (svcs w' sid)))"
proof -
  have init: "version (Service_init t) = PyInt 0 \<and> \<not> ready (Service_init t) \<and>
      well_typed (Service_init t)"
    using well_typed_init[of t] by (simp add: Service_init_def)
  have step: "well_typed (svcs w sid) \<longrightarrow> well_typed (svcs (state_of (call_service sid c w)) sid)"
    by (simp add: call_service_well_typed)
  have reach: "svcs w sid = Service_init t \<longrightarrow> well_typed (svcs (calls_on sid cs w) sid)"
    by (simp add: calls_on_well_typed well_typed_init)
  have post: "(ready s \<longrightarrow>
         (\<exists>i rest. service_infos s = i # rest \<and>
            version s = PyBytes (dict_get (si_properties i) ''version'' '''') \<and>
            (si_properties i ''version'' = None \<longrightarrow> version s = PyBytes '''') \<and>
            name s = si_name i \<and>
            decode (dict_get (si_properties i) ''dsn'' '''') = Some (uri s) \<and>
            decode (dict_get (si_properties i) ''uuid'' '''') = Some (uuid s))) \<and>
      (\<not> ready s \<longrightarrow> version s = PyInt 0 \<and> name s = '''' \<and> uri s = '''' \<and> uuid s = '''') \<and>
      (\<forall>n. version s = PyInt n \<longrightarrow> \<not> ready s)" if "service_consistent s" for s
    using that
    by (cases "service_infos s") (auto simp: service_consistent_def mirrors_def dict_get_def)
  have "service_consistent (svcs w' sid)"
    if "add_service_info sid info w = Returned w' \<or>
        remove_service_info sid info w = Returned w' \<or>
        clear_service_infos sid w = Returned w'"
    using that
    by (auto simp: add_service_info_def remove_service_info_def clear_service_infos_def Let_def
        dest: update_consistent)
  with init step reach post show ?thesis by blast
qed

theorem version_bytes_iff_ready_witness:
  "returned (add_service_info 0 info_b fresh_world) \<and>
   ready (svcs (state_of (add_service_info 0 info_b fresh_world)) 0) \<and>
   version (svcs (state_of (add_service_info 0 info_b fresh_world)) 0) = PyBytes ''2'' \<and>
   svcs fresh_world 0 = Service_init ''launcher'' \<and>
   well_typed (svcs fresh_world 0) \<and>
   well_typed (svcs (state_of (call_service 0 (AddRecord info_bad) fresh_world)) 0) \<and>
   well_typed (svcs stale_world 0)"
proof -
  let ?w' = "state_of (add_service_info 0 info_b fresh_world)"
  have r: "ready (svcs ?w' 0)" and i: "service_infos (svcs ?w' 0) = [info_b]"
    by (simp_all add: eval_service eval_examples)
  have f: "svcs fresh_world 0 = Service_init ''launcher''"
    by (simp add: fresh_world_def)
  note th = version_bytes_iff_ready[where t = "''launcher''" and sid = 0 and w = fresh_world]
  from th[where info = info_b and w' = ?w'] add_b_returns r i
  have "version (svcs ?w' 0) = PyBytes (dict_get (si_properties info_b) ''version'' '''')"
    by auto
  moreover have "dict_get (si_properties info_b) ''version'' '''' = ''2''"
    by (simp add: dict_get_def info_b_def)
  moreover have "returned (add_service_info 0 info_b fresh_world)"
    using add_b_returns by (metis returned.simps(1))
  moreover from th[where c = "AddRecord info_bad"] f
  have "well_typed (svcs fresh_world 0)"
    "well_typed (svcs (state_of (call_service 0 (AddRecord info_bad) fresh_world)) 0)"
    by simp_all
  moreover from th[where cs = "[AddRecord info_b, AddRecord info_bad, RemoveRecord info_b]"] f
  have "well_typed (svcs stale_world 0)"
    by (simp only: stale_world_def simp_thms)
  ultimately show ?thesis using r f by simp
qed

text \<open>
  C10 as stated fails after a call that raises. Add \<open>info_b\<close>, whose version is \<^verbatim>\<open>2\<close>, add
  \<open>info_bad\<close>, whose version is \<^verbatim>\<open>9\<close> and whose \<^verbatim>\<open>dsn\<close> is not UTF-8, then remove a
  record: \<open>info_b\<close> goes and \<^verbatim>\<open>_update\<close> raises before it assigns \<open>version\<close>. The
  Service is ready, its first record is \<open>info_bad\<close>, and its \<open>version\<close> is still \<^verbatim>\<open>2\<close>.
\<close>

theorem stale_version_counterexample:
  "ready (svcs stale_world 0) \<and> service_infos (svcs stale_world 0) = [info_bad] \<and>
   version (svcs stale_world 0) = PyBytes ''2'' \<and>
   dict_get (si_properties info_bad) ''version'' '''' = ''9''"
  using stale_world_eval by (simp add: dict_get_def info_bad_def)

text \<open>
  C8. Setting \<^verbatim>\<open>Service.ready\<close> or \<^verbatim>\<open>ServiceContainer.services_ready\<close> to the value it
  has changes nothing and calls nobody. Setting it to the other value stores that value
  and calls the subscribers with it, one call per entry of the subscription list, in the
  order of the list. For a Service the calls made by a container's update method to the
  container's own subscribers are in the log as well; \<open>ready_events\<close> leaves them out.
\<close>

theorem one_notification_per_transition:
  "set_ready sid (ready (svcs w sid)) w = w \<and>
   (v \<noteq> ready (svcs w sid) \<longrightarrow>
      ready (svcs (set_ready sid v w) sid) = v \<and>
      prefix (calls w) (calls (set_ready sid v w)) \<and>
      ready_events (calls (set_ready sid v w)) =
        ready_events (calls w) @ map (\<lambda>cb. ReadyChanged sid cb v) (on_ready_changed (svcs w sid))) \<and>
   set_services_ready c (services_ready (ctrs w c)) w = w \<and>
   (v \<noteq> services_ready (ctrs w c) \<longrightarrow>
      services_ready (ctrs (set_services_ready c v w) c) = v \<and>
      calls (set_services_ready c v w) =
        calls w @ map (\<lambda>k. ServicesReadyChanged c k v) (on_services_ready_changed (ctrs w c)))"
proof -
  have "set_ready sid (ready (svcs w sid)) w = w"
    by (simp add: set_ready_def)
  moreover have "ready (svcs (set_ready sid v w) sid) = v"
    by (simp add: svcs_set_ready)
  moreover have "prefix (calls w) (calls (set_ready sid v w))"
  proof (cases "v \<noteq> ready (svcs w sid)")
    case True
    let ?w0 = "w\<lparr>svcs := (svcs w)(sid := (svcs w sid)\<lparr>ready := v\<rparr>)\<rparr>"
    have "prefix (calls ?w0) (calls (foldl (call_ready_cb sid v) ?w0 (on_ready_changed (svcs w sid))))"
      by (rule prefix_run_callbacks)
    moreover have "set_ready sid v w = foldl (call_ready_cb sid v) ?w0 (on_ready_changed (svcs w sid))"
      unfolding set_ready_def using True by (rule if_P)
    ultimately show ?thesis by simp
  next
    case False
    then show ?thesis by (simp add: set_ready_def)
  qed
  moreover have "ready_events (calls (set_ready sid v w)) =
        ready_events (calls w) @ map (\<lambda>cb. ReadyChanged sid cb v) (on_ready_changed (svcs w sid))"
    if "v \<noteq> ready (svcs w sid)"
    using that by (simp add: set_ready_def ready_events_run_callbacks)
  moreover have "set_services_ready c (services_ready (ctrs w c)) w = w"
    by (simp add: set_services_ready_def)
  moreover have "services_ready (ctrs (set_services_ready c v w) c) = v"
    by (simp add: set_services_ready_def)
  moreover have "calls (set_services_ready c v w) =
        calls w @ map (\<lambda>k. ServicesReadyChanged c k v) (on_services_ready_changed (ctrs w c))"
    if "v \<noteq> services_ready (ctrs w c)"
    using that by (simp add: calls_set_services_ready)
  ultimately show ?thesis by blast
qed

theorem one_notification_per_transition_witness:
  "True \<noteq> ready (svcs watched_world 0) \<and>
   ready_events (calls (set_ready 0 True watched_world)) =
     [ReadyChanged 0 (UpdateServicesReady 0) True, ReadyChanged 0 (External 7) True] \<and>
   True \<noteq> services_ready (ctrs watched_world 0) \<and>
   calls (set_services_ready 0 True watched_world) = [ServicesReadyChanged 0 3 True]"
proof -
  have h: "True \<noteq> ready (svcs watched_world 0)" "True \<noteq> services_ready (ctrs watched_world 0)"
    and c: "calls watched_world = []"
      "on_ready_changed (svcs watched_world 0) = [UpdateServicesReady 0, External 7]"
      "on_services_ready_changed (ctrs watched_world 0) = [3]"
    by (simp_all add: watched_world_def eval_examples)
  from one_notification_per_transition[of 0 watched_world True 0] h c
  show ?thesis by (simp add: ready_events_def)
qed

text \<open>
  C2, as the code has it. A new container has \<open>services_ready = False\<close> and no Service.
  \<^verbatim>\<open>add_service\<close> and \<^verbatim>\<open>remove_service\<close> leave \<open>services_ready\<close> as it is;
  \<^verbatim>\<open>add_service\<close> subscribes the container's update method to the Service. When the
  \<open>ready\<close> flag of a Service flips, every container whose update method is subscribed to
  that Service has, once the setter is through, \<open>services_ready\<close> equal to the
  conjunction of \<open>ready\<close> over its Services, which is true when it has none.
\<close>

theorem services_ready_recomputed_on_flip:
  "(services_ready ServiceContainer_init = False \<and> ctr_services ServiceContainer_init = []) \<and>
   (container_add_service c (ServiceObj sid) w = Returned w' \<longrightarrow>
      services_ready (ctrs w' c) = services_ready (ctrs w c) \<and>
      sid \<in> set (ctr_services (ctrs w' c)) \<and>
      UpdateServicesReady c \<in> set (on_ready_changed (svcs w' sid))) \<and>
   (container_remove_service c (ServiceObj sid) w = Returned w' \<longrightarrow>
      services_ready (ctrs w' c) = services_ready (ctrs w c)) \<and>
   (v \<noteq> ready (svcs w sid) \<and> UpdateServicesReady c \<in> set (on_ready_changed (svcs w sid)) \<longrightarrow>
      container_consistent (set_ready sid v w) c)"
proof -
  have "services_ready ServiceContainer_init = False \<and> ctr_services ServiceContainer_init = []"
    by (simp add: ServiceContainer_init_def)
  moreover have "services_ready (ctrs w' c) = services_ready (ctrs w c) \<and>
      sid \<in> set (ctr_services (ctrs w' c)) \<and>
      UpdateServicesReady c \<in> set (on_ready_changed (svcs w' sid))"
    if "container_add_service c (ServiceObj sid) w = Returned w'"
    using that by (auto simp: container_add_service_def put_container_def put_service_def Let_def)
  moreover have "services_ready (ctrs w' c) = services_ready (ctrs w c)"
    if "container_remove_service c (ServiceObj sid) w = Returned w'"
    using that
    by (auto simp: container_remove_service_def put_container_def put_service_def Let_def
        split: if_splits)
  moreover have "container_consistent (set_ready sid v w) c"
    if "v \<noteq> ready (svcs w sid)" "UpdateServicesReady c \<in> set (on_ready_changed (svcs w sid))"
    using that by (simp add: set_ready_flip consistent_run_callbacks)
  ultimately show ?thesis by blast
qed

theorem services_ready_recomputed_on_flip_witness:
  "returned (container_add_service 0 (ServiceObj 0) fresh_world) \<and>
   returned (container_remove_service 0 (ServiceObj 0) member_world) \<and>
   True \<noteq> ready (svcs member_world 0) \<and>
   UpdateServicesReady 0 \<in> set (on_ready_changed (svcs member_world 0)) \<and>
   container_consistent (set_ready 0 True member_world) 0 \<and>
   services_ready (ctrs (set_ready 0 True member_world) 0)"
proof -
  have a: "container_add_service 0 (ServiceObj 0) fresh_world = Returned member_world"
    by (simp add: member_world_def container_add_service_def Let_def)
  have r: "container_remove_service 0 (ServiceObj 0) member_world =
             Returned (state_of (container_remove_service 0 (ServiceObj 0) member_world))"
    by (simp add: member_world_def container_add_service_def container_remove_service_def
        put_container_def put_service_def Let_def eval_examples)
  have f: "True \<noteq> ready (svcs member_world 0)"
    by (simp add: member_world_def container_add_service_def put_container_def put_service_def
        Let_def eval_examples)
  from services_ready_recomputed_on_flip[where c = 0 and sid = 0 and w = fresh_world
      and w' = member_world] a
  have s: "UpdateServicesReady 0 \<in> set (on_ready_changed (svcs member_world 0))"
    by simp
  from services_ready_recomputed_on_flip[where c = 0 and sid = 0 and w = member_world
      and v = True] f s
  have c: "container_consistent (set_ready 0 True member_world) 0"
    by simp
  have m: "ctr_services (ctrs (set_ready 0 True member_world) 0) = [0]"
    by (simp add: member_world_def container_add_service_def put_container_def put_service_def
        Let_def eval_examples set_ready_def update_services_ready_def set_services_ready_def)
  from c m have "services_ready (ctrs (set_ready 0 True member_world) 0)"
    by (simp add: container_consistent_def svcs_set_ready)
  with a r f s c show ?thesis by (metis returned.simps(1))
qed

text \<open>
  C2 as stated fails on a container that was just constructed: it holds no Service, the
  conjunction over no Service is true, and \<open>services_ready\<close> is false.
\<close>

theorem fresh_container_counterexample: "\<not> container_consistent fresh_world 0"
  by (simp add: container_consistent_def eval_examples)

text \<open>
  C4. On a filter with the TXT item \<^verbatim>\<open>uuid = abc-123\<close> and a record whose properties have
  no \<^verbatim>\<open>uuid\<close> key, \<^verbatim>\<open>matches_service_info\<close> raises \<^verbatim>\<open>KeyError\<close>: the call does not
  return false.
\<close>

theorem filter_missing_key_raises:
  "filter_matches_service_info uuid_filter (ServiceInfoObj info_c) = Inl KeyError"
  by (simp add: filter_matches_service_info_def uuid_filter_def info_c_def)

text \<open>
  C7. Service 0 holds the records \<open>info_a\<close> and \<open>info_b\<close>, in this order, and is resolved
  from \<open>info_a\<close>. Asked to remove \<open>info_b\<close>, \<^verbatim>\<open>remove_service_info\<close> removes \<open>info_a\<close>, the
  record that has the Service's own name, and \<open>info_b\<close> stays.
\<close>

theorem remove_takes_own_name_not_argument:
  "service_infos (svcs (state_of (remove_service_info 0 info_b two_records_world)) 0) = [info_b]"
proof -
  let ?s = "svcs two_records_world 0"
  have names: "si_name info_a = ''host-a''" "si_name info_b = ''host-b''"
    by (simp_all add: info_a_def info_b_def)
  then have ne: "info_a \<noteq> info_b" by auto
  from two_records names
  have "find (\<lambda>i. name ?s = si_name i) (service_infos ?s) = Some info_a"
    by simp
  moreover from two_records ne have "remove1 info_a (service_infos ?s) = [info_b]"
    by simp
  ultimately have "remove_service_info 0 info_b two_records_world =
      update 0 (put_service 0 (?s\<lparr>service_infos := [info_b]\<rparr>) two_records_world)"
    by (simp add: remove_service_info_def Let_def)
  then show ?thesis
    by (simp add: update_keeps_records put_service_def)
qed

text \<open>
  C3. Take any history of a ServiceDiscovery since its construction in which
  \<^verbatim>\<open>start()\<close> was called and \<^verbatim>\<open>stop()\<close> was not called after it. Then
  \<^verbatim>\<open>register(item)\<close> and \<^verbatim>\<open>unregister(item)\<close> raise \<^verbatim>\<open>RuntimeError\<close>, whatever the
  item, and the discovery with its list of registered Services, and the store, are as
  they were before the call.
\<close>

theorem register_refused_while_running:
  assumes "Stop \<notin> set post"
    and "run (pre @ Start # post) (ServiceDiscovery_init st f ns li, w0) = (d, w)"
  shows "register d w item = Raised RuntimeError (d, w) \<and>
         unregister d w item = Raised RuntimeError (d, w)"
proof -
  from running_after_start[OF assms(1), of pre st f ns li w0] assms(2) have "is_ready d"
    by simp
  then show ?thesis by (simp add: register_def unregister_def)
qed

theorem register_refused_while_running_witness:
  "Stop \<notin> set [RecordAdded (Some info_a)] \<and>
   sd_services (fst running_example) = [0] \<and>
   register (fst running_example) (snd running_example) (ServiceObj 1) =
     Raised RuntimeError running_example \<and>
   unregister (fst running_example) (snd running_example) (ServiceObj 0) =
     Raised RuntimeError running_example"
proof -
  have r: "run ([Register (ServiceObj 0)] @ Start # [RecordAdded (Some info_a)])
             (ServiceDiscovery_init ''machinekit'' ServiceDiscoveryFilter_init [] LOOKUP_INTERVAL,
              fresh_world) = (fst running_example, snd running_example)"
    by (simp add: running_example_def)
  have n: "Stop \<notin> set [RecordAdded (Some info_a)]" by simp
  from register_refused_while_running[OF n r, of "ServiceObj 1"]
       register_refused_while_running[OF n r, of "ServiceObj 0"]
       running_example_eval n
  show ?thesis by simp
qed

text \<open>
  C6. Take a ServiceDiscovery after any history since its construction. If a browser is
  open, \<^verbatim>\<open>stop()\<close> returns; it has called \<^verbatim>\<open>close()\<close> on every session of the discovery,
  in order, and every open browser ran on one of them; the two lists of handles are
  empty; every registered Service has no record, is not ready and has its resolved
  fields reset, the other Services are untouched; \<open>is_ready\<close> is false. If no browser
  is open, \<^verbatim>\<open>stop()\<close> returns and changes nothing.
\<close>

theorem stop_clears_everything:
  assumes "run hist (ServiceDiscovery_init st f ns li, w0) = (d, w)"
  shows "(\<not> no_browsers d \<longrightarrow>
           (\<exists>zs bs w'. zeroconfs d = Some zs \<and> browsers d = Some bs \<and>
              stop d w =
                Returned (d\<lparr>is_ready := False, zeroconfs := Some [], browsers := Some []\<rparr>, w') \<and>
              zc_closed w' = zc_closed w @ map zc_id zs \<and>
              (\<forall>b \<in> set bs. zc_id (br_zeroconf b) \<in> set (zc_closed w')) \<and>
              (\<forall>x. svcs w' x =
                 (if x \<in> set (sd_services d) then cleared (svcs w x) else svcs w x)))) \<and>
         (no_browsers d \<longrightarrow> stop d w = Returned (d, w))"
proof -
  have "lifecycle_ok (fst (run hist (ServiceDiscovery_init st f ns li, w0)))"
    by (rule run_ok) (simp add: lifecycle_ok_init)
  with assms have ok: "lifecycle_ok d" by simp
  have "no_browsers d \<longrightarrow> stop d w = Returned (d, w)"
    by (simp add: stop_def)
  with stop_running[OF ok, of w] show ?thesis by blast
qed

theorem stop_clears_everything_witness:
  "\<not> no_browsers (fst running_example) \<and>
   returned (stop (fst running_example) (snd running_example)) \<and>
   \<not> is_ready (fst (state_of (stop (fst running_example) (snd running_example)))) \<and>
   zc_closed (snd (state_of (stop (fst running_example) (snd running_example)))) = [0] \<and>
   svcs (snd (state_of (stop (fst running_example) (snd running_example)))) 0 =
     cleared (svcs (snd running_example) 0) \<and>
   no_browsers (ServiceDiscovery_init ''machinekit'' ServiceDiscoveryFilter_init [] LOOKUP_INTERVAL) \<and>
   stop (ServiceDiscovery_init ''machinekit'' ServiceDiscoveryFilter_init [] LOOKUP_INTERVAL)
     fresh_world =
     Returned (ServiceDiscovery_init ''machinekit'' ServiceDiscoveryFilter_init [] LOOKUP_INTERVAL,
               fresh_world)"
proof -
  have r: "run [Register (ServiceObj 0), Start, RecordAdded (Some info_a)]
             (ServiceDiscovery_init ''machinekit'' ServiceDiscoveryFilter_init [] LOOKUP_INTERVAL,
              fresh_world) = (fst running_example, snd running_example)"
    by (simp add: running_example_def)
  have n: "\<not> no_browsers (fst running_example)"
    using running_example_eval by (simp add: no_browsers_def)
  have e: "run [] (ServiceDiscovery_init ''machinekit'' ServiceDiscoveryFilter_init [] LOOKUP_INTERVAL,
              fresh_world) =
            (ServiceDiscovery_init ''machinekit'' ServiceDiscoveryFilter_init [] LOOKUP_INTERVAL,
             fresh_world)"
    by simp
  have i: "no_browsers (ServiceDiscovery_init ''machinekit'' ServiceDiscoveryFilter_init []
             LOOKUP_INTERVAL)"
    by (simp add: no_browsers_def ServiceDiscovery_init_def)
  from stop_clears_everything[OF r] n running_example_eval
  have "returned (stop (fst running_example) (snd running_example)) \<and>
   \<not> is_ready (fst (state_of (stop (fst running_example) (snd running_example)))) \<and>
   zc_closed (snd (state_of (stop (fst running_example) (snd running_example)))) = [0] \<and>
   svcs (snd (state_of (stop (fst running_example) (snd running_example)))) 0 =
     cleared (svcs (snd running_example) 0)"
    by auto
  with stop_clears_everything[OF e] n i show ?thesis by simp
qed

text \<open>
  C9, as the code has it. Take a ServiceDiscovery constructed with a list of nameservers
  of which at least one is a non-empty string, and with no Service registered.
  \<^verbatim>\<open>start()\<close> sets \<open>is_ready\<close> and leaves both lists of handles empty: no session, no
  browser. From then on, whatever is called, the discovery stays as it is: \<^verbatim>\<open>stop()\<close>
  changes nothing, because it tests the list of browsers, \<open>is_ready\<close> stays true, and
  \<^verbatim>\<open>register\<close> and \<^verbatim>\<open>unregister\<close> raise \<^verbatim>\<open>RuntimeError\<close>.
\<close>

theorem unicast_without_services_is_stuck:
  assumes "any_nameserver ns"
  shows "start (ServiceDiscovery_init st f ns li) w =
           Returned (started_idle (ServiceDiscovery_init st f ns li), w) \<and>
         is_ready (started_idle (ServiceDiscovery_init st f ns li)) \<and>
         browsers (started_idle (ServiceDiscovery_init st f ns li)) = Some [] \<and>
         zeroconfs (started_idle (ServiceDiscovery_init st f ns li)) = Some [] \<and>
         stop (started_idle (ServiceDiscovery_init st f ns li)) w' =
           Returned (started_idle (ServiceDiscovery_init st f ns li), w') \<and>
         fst (run (Start # hist) (ServiceDiscovery_init st f ns li, w)) =
           started_idle (ServiceDiscovery_init st f ns li) \<and>
         register (started_idle (ServiceDiscovery_init st f ns li)) w' item =
           Raised RuntimeError (started_idle (ServiceDiscovery_init st f ns li), w') \<and>
         unregister (started_idle (ServiceDiscovery_init st f ns li)) w' item =
           Raised RuntimeError (started_idle (ServiceDiscovery_init st f ns li), w')"
proof -
  let ?d0 = "ServiceDiscovery_init st f ns li"
  have s: "start ?d0 w = Returned (started_idle ?d0, w)"
    using assms
    by (simp add: start_def no_browsers_def start_discovery_def started_idle_def
        ServiceDiscovery_init_def)
  then have "run (Start # hist) (?d0, w) = run hist (started_idle ?d0, w)"
    by simp
  with stuck_run[OF assms, of hist st f li w]
  have "fst (run (Start # hist) (?d0, w)) = started_idle ?d0"
    by simp
  with s show ?thesis
    by (simp add: started_idle_def stop_def no_browsers_def register_def unregister_def)
qed

theorem unicast_without_services_is_stuck_witness:
  "any_nameserver [''10.0.0.1''] \<and>
   start unicast_empty fresh_world = Returned (started_idle unicast_empty, fresh_world) \<and>
   stop (started_idle unicast_empty) fresh_world =
     Returned (started_idle unicast_empty, fresh_world) \<and>
   is_ready (started_idle unicast_empty) \<and>
   register (started_idle unicast_empty) fresh_world (ServiceObj 0) =
     Raised RuntimeError (started_idle unicast_empty, fresh_world)"
proof -
  have a: "any_nameserver [''10.0.0.1'']" by (simp add: any_nameserver_def)
  from unicast_without_services_is_stuck[OF a, of "''machinekit''" ServiceDiscoveryFilter_init
      LOOKUP_INTERVAL fresh_world fresh_world "[]" "ServiceObj 0"] a
  show ?thesis by (simp add: unicast_empty_def)
qed

text \<open>
  C9 as stated fails when the list of nameservers is not empty but holds only the empty
  string: \<^verbatim>\<open>any(self.nameservers)\<close> is false, the discovery is multicast, and
  \<^verbatim>\<open>start()\<close> opens a session and a browser although no Service is registered.
\<close>

theorem blank_nameserver_counterexample:
  "nameservers blank_nameserver \<noteq> [] \<and> sd_services blank_nameserver = [] \<and>
   browsers (fst (state_of (start blank_nameserver fresh_world))) =
     Some [ServiceBrowser (Zeroconf 0 False) ''_machinekit._tcp.local.'' None 500]"
  by (simp add: blank_nameserver_def eval_discovery eval_examples Let_def)

text \<open>
  C5, as the code has it. When a record-added event is delivered and the resolution gave
  nothing, the handler returns and nothing has changed. When it gave a record and the
  handler returns, the list of records of every Service is what it was, followed by the
  record once for each time the Service is registered, if the filter of the discovery
  says yes to the record and the Service's own \<^verbatim>\<open>matches_service_info\<close> says yes to it,
  and unchanged otherwise: every registered Service that matches gets the record, no
  other Service does. The Service says yes iff the record's \<^verbatim>\<open>service\<close> TXT value,
  decoded, is the Service's type and the Service's typestring occurs in the record's
  type. The handler returns when the record has every TXT key the filter asks for, its
  \<^verbatim>\<open>service\<close>, \<^verbatim>\<open>dsn\<close> and \<^verbatim>\<open>uuid\<close> values are UTF-8, and so are the \<^verbatim>\<open>dsn\<close> and
  \<^verbatim>\<open>uuid\<close> values of the records the registered Services hold.
\<close>

theorem record_added_fans_out:
  "add_service d None w = Returned w \<and>
   (add_service d (Some info) w = Returned w' \<longrightarrow>
      (\<forall>sid. service_infos (svcs w' sid) =
         service_infos (svcs w sid) @
           replicate (if accepts d (svcs w sid) info then count_list (sd_services d) sid else 0)
             info)) \<and>
   (matches_service_info s info = Inr True \<longleftrightarrow>
      decode (dict_get (si_properties info) ''service'' '''') = Some (svc_type s) \<and>
      sublist (typestring s) (si_type info)) \<and>
   (fst ` set (txt_records (sd_filter d)) \<subseteq> dom (si_properties info) \<and>
    decode (dict_get (si_properties info) ''service'' '''') \<noteq> None \<and> decodable info \<and>
    (\<forall>sid \<in> set (sd_services d). \<forall>i \<in> set (service_infos (svcs w sid)). decodable i) \<longrightarrow>
      returned (add_service d (Some info) w))"
proof -
  have "add_service d None w = Returned w"
    by (simp add: add_service_def)
  moreover have "service_infos (svcs w' sid) =
         service_infos (svcs w sid) @
           replicate (if accepts d (svcs w sid) info then count_list (sd_services d) sid else 0)
             info"
    if "add_service d (Some info) w = Returned w'" for sid
    using dispatch_add[of "sd_filter d" info "sd_services d" w w' sid] that
    by (simp add: add_service_def accepts_def)
  moreover have "returned (add_service d (Some info) w)"
    if "fst ` set (txt_records (sd_filter d)) \<subseteq> dom (si_properties info)"
      "decode (dict_get (si_properties info) ''service'' '''') \<noteq> None" "decodable info"
      "\<forall>sid \<in> set (sd_services d). \<forall>i \<in> set (service_infos (svcs w sid)). decodable i"
    using dispatch_add_returns[OF that] by (simp add: add_service_def)
  ultimately show ?thesis
    using matches_service_info_true[of s info] by blast
qed

theorem record_added_fans_out_witness:
  "returned (add_service both_registered (Some info_a) two_types_world) \<and>
   accepts both_registered (svcs two_types_world 0) info_a \<and>
   \<not> accepts both_registered (svcs two_types_world 1) info_a \<and>
   service_infos (svcs (state_of (add_service both_registered (Some info_a) two_types_world)) 0) =
     [info_a] \<and>
   service_infos (svcs (state_of (add_service both_registered (Some info_a) two_types_world)) 1) =
     []"
proof -
  let ?r = "add_service both_registered (Some info_a) two_types_world"
  have pre: "fst ` set (txt_records (sd_filter both_registered)) \<subseteq> dom (si_properties info_a)"
    "decode (dict_get (si_properties info_a) ''service'' '''') \<noteq> None" "decodable info_a"
    "\<forall>sid \<in> set (sd_services both_registered).
       \<forall>i \<in> set (service_infos (svcs two_types_world sid)). decodable i"
    by (simp_all add: both_registered_def two_types_world_def eval_discovery eval_examples
        decodable_def decode_def dict_get_def cont_def)
  note th = record_added_fans_out[of both_registered two_types_world info_a]
  from th pre have ret: "returned ?r" by blast
  then have r: "?r = Returned (state_of ?r)"
    by (cases ?r) simp_all
  have a0: "accepts both_registered (svcs two_types_world 0) info_a"
    and a1: "\<not> accepts both_registered (svcs two_types_world 1) info_a"
    by (simp_all add: accepts_def both_registered_def two_types_world_def eval_discovery
        eval_examples decode_def dict_get_def sublist_code prefix_code)
  have s: "sd_services both_registered = [0, 1]"
    "service_infos (svcs two_types_world 0) = []" "service_infos (svcs two_types_world 1) = []"
    by (simp_all add: both_registered_def two_types_world_def eval_examples)
  from th[of "state_of ?r"] r
  have "\<forall>sid. service_infos (svcs (state_of ?r) sid) =
         service_infos (svcs two_types_world sid) @
           replicate (if accepts both_registered (svcs two_types_world sid) info_a
                      then count_list (sd_services both_registered) sid else 0) info_a"
    by simp
  with a0 a1 s have "service_infos (svcs (state_of ?r) 0) = [info_a]"
    "service_infos (svcs (state_of ?r) 1) = []"
    by simp_all
  with ret a0 a1 show ?thesis by simp
qed

text \<open>
  C5 as stated fails when the handler raises. Services 0 and 1 are registered and both
  match the record \<open>info_bad\<close>, whose \<^verbatim>\<open>dsn\<close> value is not UTF-8. The record is added to
  Service 0, whose \<^verbatim>\<open>_update\<close> raises out of the loop, and Service 1 gets nothing.
\<close>

theorem partial_fan_out_counterexample:
  "sd_services both_registered = [0, 1] \<and>
   accepts both_registered (svcs fresh_world 0) info_bad \<and>
   accepts both_registered (svcs fresh_world 1) info_bad \<and>
   \<not> returned (add_service both_registered (Some info_bad) fresh_world) \<and>
   service_infos (svcs (state_of (add_service both_registered (Some info_bad) fresh_world)) 0) =
     [info_bad] \<and>
   service_infos (svcs (state_of (add_service both_registered (Some info_bad) fresh_world)) 1) =
     []"
proof -
  have a: "accepts both_registered (svcs fresh_world 0) info_bad"
    "accepts both_registered (svcs fresh_world 1) info_bad"
    by (simp_all add: accepts_def both_registered_def eval_discovery eval_examples info_bad_def
        decode_def dict_get_def sublist_code prefix_code)
  have s: "sd_services both_registered = [0, 1]"
    by (simp add: both_registered_def eval_discovery)
  from bad_add_eval obtain w1
    where w1: "add_service_info 0 info_bad fresh_world = Raised UnicodeDecodeError w1"
    by blast
  have r: "add_service both_registered (Some info_bad) fresh_world = Raised UnicodeDecodeError w1"
    using a by (simp add: add_service_def s accepts_def w1)
  have "svcs w1 1 = svcs fresh_world 1"
    using update_same_kind[of 0 "put_service 0 ((svcs fresh_world 0)
            \<lparr>service_infos := service_infos (svcs fresh_world 0) @ [info_bad]\<rparr>) fresh_world" 1] w1
    by (simp add: add_service_info_def put_service_def)
  then have "service_infos (svcs w1 1) = []"
    by (simp add: eval_examples)
  moreover from bad_add_eval have "service_infos (svcs w1 0) = [info_bad]"
    by (simp add: w1)
  ultimately show ?thesis using a s by (simp add: r)
qed

end
